theory Spec2Isabelle
  imports Complex_Main "HOL-Library.Sublist" "HOL-Library.Multiset"
begin

section \<open>Text\<close>

text \<open>
  A Python \<open>str\<close> is a sequence of Unicode code points, and \<open>len\<close>, slicing and
  \<open>in\<close> count code points. The model therefore takes a string to be the list of its
  code points; \<open>asc\<close> reads an ASCII literal, and the CJK literals of \<open>run.py\<close>
  are written out by code point.
\<close>

type_synonym ustr = "nat list"

definition asc :: "string \<Rightarrow> ustr" where
  "asc s = map of_char s"

text \<open>\<open>str(n)\<close> for a natural number: its decimal digits.\<close>

fun py_str_nat :: "nat \<Rightarrow> ustr" where
  "py_str_nat n = (if n < 10 then [48 + n] else py_str_nat (n div 10) @ [48 + n mod 10])"

text \<open>
  The two failure placeholders of \<open>download_novel\<close>, f-strings around the chapter's
  1-based number \<open>idx + 1\<close>: U+3010 U+7AE0 U+8282, a space, the number, a space,
  U+4E0B U+8F7D U+5931 U+8D25 ("download failed") and U+3011; the second has the
  full-width colon U+FF1A and \<open>str(e)\<close> before the closing U+3011.
\<close>

definition placeholder :: "nat \<Rightarrow> ustr" where
  "placeholder idx =
     [0x3010, 0x7AE0, 0x8282, 0x20] @ py_str_nat (idx + 1)
     @ [0x20, 0x4E0B, 0x8F7D, 0x5931, 0x8D25, 0x3011]"

definition placeholder_error :: "nat \<Rightarrow> ustr \<Rightarrow> ustr" where
  "placeholder_error idx msg =
     [0x3010, 0x7AE0, 0x8282, 0x20] @ py_str_nat (idx + 1)
     @ [0x20, 0x4E0B, 0x8F7D, 0x5931, 0x8D25, 0xFF1A] @ msg @ [0x3011]"

text \<open>
  \<open>str.isspace\<close> for one code point: the characters Python treats as whitespace
  (bidirectional class WS, B or S, or category Zs).
\<close>

definition py_isspace :: "nat \<Rightarrow> bool" where
  "py_isspace c =
     ((0x09 \<le> c \<and> c \<le> 0x0D) \<or> (0x1C \<le> c \<and> c \<le> 0x20) \<or> c = 0x85 \<or> c = 0xA0
      \<or> c = 0x1680 \<or> (0x2000 \<le> c \<and> c \<le> 0x200A) \<or> c = 0x2028 \<or> c = 0x2029
      \<or> c = 0x202F \<or> c = 0x205F \<or> c = 0x3000)"

text \<open>\<open>s.strip()\<close>: whitespace removed at both ends.\<close>

definition py_strip :: "ustr \<Rightarrow> ustr" where
  "py_strip s = rev (dropWhile py_isspace (rev (dropWhile py_isspace s)))"

text \<open>
  \<open>s.replace(old, new)\<close>: the occurrences of \<open>old\<close> are found from the left and do not
  overlap. With an empty \<open>old\<close>, Python puts \<open>new\<close> before every character and at the
  end.
\<close>

fun replace_scan :: "ustr \<Rightarrow> ustr \<Rightarrow> ustr \<Rightarrow> ustr" where
  "replace_scan old new [] = []"
| "replace_scan old new (c # s) =
     (if prefix old (c # s) \<and> old \<noteq> [] then new @ replace_scan old new (drop (length old - 1) s)
      else c # replace_scan old new s)"

definition py_replace :: "ustr \<Rightarrow> ustr \<Rightarrow> ustr \<Rightarrow> ustr" where
  "py_replace old new s =
     (if old = [] then new @ concat (map (\<lambda>c. c # new) s) else replace_scan old new s)"

text \<open>\<open>sub in s\<close> for two strings: \<open>sub\<close> occurs in \<open>s\<close> as a contiguous run.\<close>

fun py_in :: "ustr \<Rightarrow> ustr \<Rightarrow> bool" where
  "py_in sub [] = (sub = [])"
| "py_in sub (c # s) = (prefix sub (c # s) \<or> py_in sub s)"

text \<open>
  \<open>re.sub(r'<p idx="\d+">', '', s)\<close>: the pattern is the text \<open><p idx="\<close>, one or
  more decimal digits, and \<open>">\<close> (the source writes the closing bracket as the
  escape u003e, which \<open>re\<close> reads as that character).
  Matches are found from the left and do not overlap. The digits are matched greedily, and
  since the character after them must be the quote, which is no digit, a match at a
  position takes the whole run of digits there or fails. \<open>\d\<close> on a \<open>str\<close> is the
  Unicode category Nd; the test is the parameter \<open>nd\<close>.
\<close>

definition p_idx_match :: "(nat \<Rightarrow> bool) \<Rightarrow> ustr \<Rightarrow> nat option" where
  "p_idx_match nd s =
     (if prefix (asc ''<p idx='' @ [0x22]) s then
        (let r = drop 8 s; ds = takeWhile nd r; t = drop (length ds) r
         in if ds \<noteq> [] \<and> prefix ([0x22] @ asc ''>'') t then Some (8 + length ds + 2) else None)
      else None)"

fun strip_p_idx :: "(nat \<Rightarrow> bool) \<Rightarrow> ustr \<Rightarrow> ustr" where
  "strip_p_idx nd [] = []"
| "strip_p_idx nd (c # s) =
     (case p_idx_match nd (c # s) of
        Some n \<Rightarrow> strip_p_idx nd (drop (n - 1) s)
      | None \<Rightarrow> c # strip_p_idx nd s)"

text \<open>
  \<open>sanitize_filename\<close>: \<open>re.sub(r'[\\/*?:"<>|]', '', name).strip()[:100]\<close>. The
  class holds backslash, slash, star, question mark, colon, double quote, the angle
  brackets and the bar.
\<close>

definition forbidden :: "nat set" where
  "forbidden = {0x5C, 0x2F, 0x2A, 0x3F, 0x3A, 0x22, 0x3C, 0x3E, 0x7C}"

definition sanitize_filename :: "ustr \<Rightarrow> ustr" where
  "sanitize_filename name = take 100 (py_strip (filter (\<lambda>c. c \<notin> forbidden) name))"

section \<open>Errors, JSON values and the runtime\<close>

text \<open>The exceptions the modelled code can raise.\<close>

datatype error =
    ValueError
  | IndexError
  | KeyError
  | TypeError
  | AttributeError
  | StopIteration
  | RequestError ustr
  | HTTPError nat
  | JSONDecodeError ustr

text \<open>
  A decoded JSON value, as \<open>resp.json()\<close> returns it. \<open>JObj\<close> lists the entries of a
  \<open>dict\<close> and is read with \<open>map_of\<close>. \<open>JFloat\<close> carries the value of a float; the
  code only compares numbers with \<open>0\<close> and tests their truth, where a NaN or an infinity
  behaves as any non-zero value does.
\<close>

datatype json =
    JNull
  | JBool bool
  | JInt int
  | JFloat real
  | JStr ustr
  | JArr "json list"
  | JObj "(ustr \<times> json) list"

text \<open>\<open>d.get(key, default)\<close>: only a \<open>dict\<close> has the method.\<close>

fun py_get :: "json \<Rightarrow> ustr \<Rightarrow> json \<Rightarrow> error + json" where
  "py_get (JObj kv) key d = Inr (case map_of kv key of Some v \<Rightarrow> v | None \<Rightarrow> d)"
| "py_get v key d = Inl AttributeError"

text \<open>\<open>v == 0\<close>: true of the integer and the float zero and of \<open>False\<close>.\<close>

fun py_eq_zero :: "json \<Rightarrow> bool" where
  "py_eq_zero (JInt i) = (i = 0)"
| "py_eq_zero (JFloat r) = (r = 0)"
| "py_eq_zero (JBool b) = (\<not> b)"
| "py_eq_zero v = False"

text \<open>The truth value of a JSON value in a condition.\<close>

fun py_truthy :: "json \<Rightarrow> bool" where
  "py_truthy JNull = False"
| "py_truthy (JBool b) = b"
| "py_truthy (JInt i) = (i \<noteq> 0)"
| "py_truthy (JFloat r) = (r \<noteq> 0)"
| "py_truthy (JStr s) = (s \<noteq> [])"
| "py_truthy (JArr xs) = (xs \<noteq> [])"
| "py_truthy (JObj kv) = (kv \<noteq> [])"

text \<open>
  \<open>v[0]\<close>: the first element of a list, the first character of a string; a \<open>dict\<close>
  decoded from JSON has only string keys, and the other values cannot be subscripted.
\<close>

fun py_item0 :: "json \<Rightarrow> error + json" where
  "py_item0 (JArr []) = Inl IndexError"
| "py_item0 (JArr (x # xs)) = Inr x"
| "py_item0 (JStr []) = Inl IndexError"
| "py_item0 (JStr (c # s)) = Inr (JStr [c])"
| "py_item0 (JObj kv) = Inl KeyError"
| "py_item0 v = Inl TypeError"

text \<open>
  A response of \<open>session.get\<close> or \<open>session.post\<close>: its HTTP status and what
  \<open>resp.json()\<close> gives, the decoded body or the decoder's exception. The call itself
  raises on a connection error or a timeout, so a request yields \<open>error + response\<close>.
\<close>

datatype response = Response nat "error + json"

text \<open>
  What the model takes from the running Python and its libraries:
  \<^item> \<open>is_decimal\<close>: the Unicode category Nd, which \<open>\d\<close> matches;
  \<^item> \<open>err_str\<close>: \<open>str(e)\<close> of an exception;
  \<^item> \<open>fmt\<close>: the text an f-string gives for a value (a string gives itself, see
    \<open>fmt_json\<close>);
  \<^item> \<open>fmt_wan\<close>: \<open>f"{v/10000:.1f}"\<close>, which raises when \<open>v\<close> cannot be divided;
  \<^item> \<open>py_int\<close>: \<open>int(s)\<close> of a string, which raises \<open>ValueError\<close> on a string that is
    no integer literal;
  \<^item> \<open>abspath\<close>: \<open>os.path.abspath\<close>.
\<close>

record runtime =
  is_decimal :: "nat \<Rightarrow> bool"
  err_str :: "error \<Rightarrow> ustr"
  fmt :: "json \<Rightarrow> ustr"
  fmt_wan :: "json \<Rightarrow> error + ustr"
  py_int :: "ustr \<Rightarrow> error + int"
  abspath :: "ustr \<Rightarrow> ustr"

definition fmt_json :: "runtime \<Rightarrow> json \<Rightarrow> ustr" where
  "fmt_json rt v = (case v of JStr s \<Rightarrow> s | _ \<Rightarrow> fmt rt v)"

section \<open>Configuration and colours\<close>

text \<open>
  \<open>config\<close>, with the types of \<open>DEFAULT_CONFIG\<close>: \<open>default_format\<close>,
  \<open>default_threads\<close>, \<open>api_timeout\<close>, \<open>show_colors\<close>, \<open>save_cover\<close>.
\<close>

record config =
  default_format :: ustr
  default_threads :: int
  api_timeout :: int
  show_colors :: bool
  save_cover :: bool

definition DEFAULT_CONFIG :: config where
  "DEFAULT_CONFIG =
     \<lparr>default_format = asc ''epub'', default_threads = 4, api_timeout = 10,
      show_colors = True, save_cover = True\<rparr>"

definition RESET :: ustr where "RESET = 0x1B # asc ''[0m''"
definition RED :: ustr where "RED = 0x1B # asc ''[31m''"
definition GREEN :: ustr where "GREEN = 0x1B # asc ''[32m''"
definition BLUE :: ustr where "BLUE = 0x1B # asc ''[34m''"
definition PURPLE :: ustr where "PURPLE = 0x1B # asc ''[35m''"

definition wrap :: "config \<Rightarrow> ustr \<Rightarrow> ustr \<Rightarrow> ustr" where
  "wrap cfg text color = (if show_colors cfg then color @ text @ RESET else text)"

section \<open>Chapters\<close>

text \<open>
  One entry of \<open>chapters\<close>, as \<open>get_chapter_list\<close> builds it:
  \<open>{"title": ..., "item_id": ...}\<close>; and one entry of \<open>chap_contents\<close>:
  \<open>{"title": ..., "content": ...}\<close>.
\<close>

record chapter_ref =
  title :: ustr
  item_id :: ustr

record chap_content =
  title :: ustr
  content :: ustr

section \<open>Effects\<close>

text \<open>
  What a run does that can be seen from outside, in order: a line printed, a request to
  one of the three endpoints (with the book or chapter identifier), and the call of a
  document builder with its output path and the chapters. A run returns, leaves through \<open>sys.exit\<close>
  with a status, or dies of an uncaught exception.
\<close>

datatype event =
    Printed ustr
  | InfoRequest ustr
  | DirectoryRequest ustr
  | DownRequest ustr
  | BuildEpub ustr "chap_content list"
  | BuildTxt ustr "chap_content list"

datatype 'a outcome = Return 'a | Exit int | Uncaught error

type_synonym 'a io = "event list \<times> 'a outcome"

definition bind_io :: "'a io \<Rightarrow> ('a \<Rightarrow> 'b io) \<Rightarrow> 'b io" where
  "bind_io m f =
     (case m of
        (tr, Return x) \<Rightarrow> (case f x of (tr', r) \<Rightarrow> (tr @ tr', r))
      | (tr, Exit n) \<Rightarrow> (tr, Exit n)
      | (tr, Uncaught e) \<Rightarrow> (tr, Uncaught e))"

definition emit :: "event \<Rightarrow> unit io" where
  "emit e = ([e], Return ())"

section \<open>The book identifier\<close>

text \<open>
  \<open>extract_book_id_from_url\<close>: \<open>re.search(r'(\d{10,20})', url.strip())\<close>, the
  leftmost run of at least ten digits, of which at most twenty are taken.
\<close>

fun search_digits :: "(nat \<Rightarrow> bool) \<Rightarrow> ustr \<Rightarrow> ustr option" where
  "search_digits nd [] = None"
| "search_digits nd (c # s) =
     (let run = takeWhile nd (c # s)
      in if 10 \<le> length run then Some (take 20 run) else search_digits nd s)"

definition extract_book_id_from_url :: "runtime \<Rightarrow> ustr \<Rightarrow> ustr option" where
  "extract_book_id_from_url rt url = search_digits (is_decimal rt) (py_strip url)"

section \<open>Book metadata\<close>

text \<open>
  The \<open>metadata\<close> dictionary. Six of its values come from the response as they are and
  may be any JSON value; \<open>status\<close> and \<open>word_count\<close> are always strings the code
  builds.
\<close>

record metadata =
  book_name :: json
  author :: json
  summary :: json
  cover_url :: json
  category :: json
  status :: ustr
  word_count :: ustr
  readers :: json

text \<open>
  The defaults of lines 66 to 75. Each starts with U+672A U+77E5 ("unknown") but the
  summary, U+65E0 U+7B80 U+4ECB ("no summary"); the default book name ends with an
  underscore and the book identifier.
\<close>

definition unknown :: ustr where
  "unknown = [0x672A, 0x77E5]"

definition default_metadata :: "ustr \<Rightarrow> metadata" where
  "default_metadata book_id =
     \<lparr>book_name = JStr (unknown @ [0x4E66, 0x540D, 0x5F] @ book_id),
      author = JStr (unknown @ [0x4F5C, 0x8005]),
      summary = JStr [0x65E0, 0x7B80, 0x4ECB],
      cover_url = JStr [],
      category = JStr (unknown @ [0x7C7B, 0x578B]),
      status = unknown @ [0x72B6, 0x6001],
      word_count = unknown @ [0x5B57, 0x6570],
      readers = JStr (unknown @ [0x5728, 0x8BFB, 0x4EBA, 0x6570])\<rparr>"

text \<open>
  Lines 90 to 102: the fields are read from \<open>book_data\<close>, the first element of the
  response's \<open>data\<close>. \<open>.get\<close> needs a \<open>dict\<close>, the word count must be a number to be
  divided, and \<open>.startswith\<close> needs the book name to be a string. The two status texts
  are U+8FDE U+8F7D U+4E2D ("being serialised") and U+5DF2 U+5B8C U+7ED3 ("finished"); the
  word count is followed by U+4E07 U+5B57; a name between the brackets U+300A and U+300B
  loses them.
\<close>

definition read_book_data :: "runtime \<Rightarrow> metadata \<Rightarrow> json \<Rightarrow> error + metadata" where
  "read_book_data rt metadata book_data =
     (case book_data of
        JObj kv \<Rightarrow>
          (let get = (\<lambda>key d. case map_of kv key of Some v \<Rightarrow> v | None \<Rightarrow> d);
               m1 = metadata
                 \<lparr>book_name := get (asc ''book_name'') (book_name metadata),
                  author := get (asc ''author'') (author metadata),
                  summary := get (asc ''abstract'') (summary metadata),
                  cover_url :=
                    (if py_truthy (get (asc ''bookshelf_thumb_url'') JNull)
                     then get (asc ''bookshelf_thumb_url'') JNull
                     else get (asc ''thumb_url'') (JStr [])),
                  category := get (asc ''category'') (category metadata),
                  status :=
                    (if get (asc ''update_status'') JNull = JStr (asc ''1'')
                     then [0x8FDE, 0x8F7D, 0x4E2D] else [0x5DF2, 0x5B8C, 0x7ED3])\<rparr>
           in case
                (if py_truthy (get (asc ''word_count'') JNull) then
                   (case fmt_wan rt (get (asc ''word_count'') JNull) of
                      Inl e \<Rightarrow> Inl e
                    | Inr t \<Rightarrow> Inr (m1\<lparr>word_count := t @ [0x4E07, 0x5B57]\<rparr>))
                 else Inr m1)
              of
                Inl e \<Rightarrow> Inl e
              | Inr m2 \<Rightarrow>
                  (let m3 = m2\<lparr>readers := get (asc ''sub_info'') (readers m2)\<rparr>
                   in case book_name m3 of
                        JStr s \<Rightarrow>
                          Inr (if prefix [0x300A] s \<and> suffix [0x300B] s
                               then m3\<lparr>book_name := JStr (butlast (tl s))\<rparr> else m3)
                      | _ \<Rightarrow> Inl AttributeError))
      | _ \<Rightarrow> Inl AttributeError)"

text \<open>
  The \<open>try\<close> block of \<open>get_book_metadata\<close> (lines 77 to 105), given what
  \<open>session.get\<close> did: \<open>Inl e\<close> is an exception \<open>e\<close> raised in the block,
  \<open>Inr None\<close> the \<open>else\<close> branch (the response's \<open>code\<close> is not \<open>0\<close>, or its
  \<open>data\<close> is missing or empty), \<open>Inr (Some m)\<close> the metadata read.
  \<open>raise_for_status\<close> raises on a status from 400 to 599.
\<close>

definition book_info :: "runtime \<Rightarrow> ustr \<Rightarrow> error + response \<Rightarrow> error + metadata option" where
  "book_info rt book_id got =
     (case got of
        Inl e \<Rightarrow> Inl e
      | Inr (Response st body) \<Rightarrow>
          (if 400 \<le> st \<and> st < 600 then Inl (HTTPError st)
           else case body of
             Inl e \<Rightarrow> Inl e
           | Inr data \<Rightarrow>
               (case py_get data (asc ''code'') JNull of
                  Inl e \<Rightarrow> Inl e
                | Inr code \<Rightarrow>
                    (if \<not> py_eq_zero code then Inr None
                     else case py_get data (asc ''data'') JNull of
                       Inl e \<Rightarrow> Inl e
                     | Inr d \<Rightarrow>
                         (if \<not> py_truthy d then Inr None
                          else case py_item0 d of
                            Inl e \<Rightarrow> Inl e
                          | Inr book_data \<Rightarrow>
                              (case read_book_data rt (default_metadata book_id) book_data of
                                 Inl e \<Rightarrow> Inl e
                               | Inr m \<Rightarrow> Inr (Some m)))))))"

text \<open>
  \<open>get_book_metadata\<close>, with the cache \<open>book_info_cache\<close> passed in and returned. The
  \<open>else\<close> branch prints "API" U+83B7 U+53D6 "Text" U+4FE1 U+606F U+5931 U+8D25 (fetching
  the information through the API failed) in red and calls \<open>sys.exit(1)\<close>, whose
  \<open>SystemExit\<close> the handler for \<open>Exception\<close> does not catch; the handler prints the same
  text without "API", a colon and \<open>str(e)\<close>, and calls \<open>sys.exit(1)\<close>.
\<close>

definition info_failed :: ustr where
  "info_failed = [0x83B7, 0x53D6] @ asc ''Text'' @ [0x4FE1, 0x606F, 0x5931, 0x8D25]"

definition get_book_metadata ::
  "runtime \<Rightarrow> config \<Rightarrow> (ustr \<Rightarrow> error + response) \<Rightarrow> (ustr \<rightharpoonup> metadata) \<Rightarrow> ustr
     \<Rightarrow> (metadata \<times> (ustr \<rightharpoonup> metadata)) io" where
  "get_book_metadata rt cfg info_get cache book_id =
     (case cache book_id of
        Some m \<Rightarrow> ([], Return (m, cache))
      | None \<Rightarrow>
          (case book_info rt book_id (info_get book_id) of
             Inr (Some m) \<Rightarrow> ([InfoRequest book_id], Return (m, cache(book_id \<mapsto> m)))
           | Inr None \<Rightarrow>
               ([InfoRequest book_id, Printed (wrap cfg (asc ''API'' @ info_failed) RED)], Exit 1)
           | Inl e \<Rightarrow>
               ([InfoRequest book_id,
                 Printed (wrap cfg info_failed RED @ asc '': '' @ err_str rt e)], Exit 1)))"

section \<open>The chapter fetcher\<close>

text \<open>
  \<open>"content" in v\<close> and \<open>v["content"]\<close> for the value \<open>v\<close> of \<open>data.get("data", {})\<close>:
  a \<open>dict\<close> is asked for the key, a string for the substring, a list for an equal element;
  the index \<open>"content"\<close> is one only a \<open>dict\<close> accepts.
\<close>

fun py_has_key :: "ustr \<Rightarrow> json \<Rightarrow> error + bool" where
  "py_has_key k (JObj kv) = Inr (map_of kv k \<noteq> None)"
| "py_has_key k (JStr s) = Inr (py_in k s)"
| "py_has_key k (JArr xs) = Inr (JStr k \<in> set xs)"
| "py_has_key k v = Inl TypeError"

fun py_item :: "json \<Rightarrow> ustr \<Rightarrow> error + json" where
  "py_item (JObj kv) k = (case map_of kv k of Some v \<Rightarrow> Inr v | None \<Rightarrow> Inl KeyError)"
| "py_item v k = Inl TypeError"

text \<open>
  Lines 137 and 138: \<open></p>\<close> becomes a newline, \<open>&quot;\<close> a double quote,
  \<open>&amp;\<close> an ampersand, in this order; then the paragraph tags are removed and the
  result is stripped. \<open>.replace\<close> is a method of strings only.
\<close>

definition clean_content :: "runtime \<Rightarrow> ustr \<Rightarrow> ustr" where
  "clean_content rt raw =
     py_strip (strip_p_idx (is_decimal rt)
       (py_replace (asc ''&amp;'') (asc ''&'')
         (py_replace (asc ''&quot;'') [0x22]
           (py_replace (asc ''</p>'') [0x0A] raw))))"

text \<open>
  The \<open>try\<close> block of \<open>download_chapter\<close> (lines 133 to 138), given what
  \<open>session.post\<close> did: \<open>Inl e\<close> is an exception raised in the block, \<open>Inr None\<close> the
  end of the block without a \<open>return\<close>, \<open>Inr (Some s)\<close> the string returned. The HTTP
  status is not looked at.
\<close>

definition download_chapter_try :: "runtime \<Rightarrow> error + response \<Rightarrow> error + ustr option" where
  "download_chapter_try rt posted =
     (case posted of
        Inl e \<Rightarrow> Inl e
      | Inr (Response st body) \<Rightarrow>
          (case body of
             Inl e \<Rightarrow> Inl e
           | Inr data \<Rightarrow>
               (case py_get data (asc ''code'') JNull of
                  Inl e \<Rightarrow> Inl e
                | Inr code \<Rightarrow>
                    (if \<not> py_eq_zero code then Inr None
                     else case py_get data (asc ''data'') (JObj []) of
                       Inl e \<Rightarrow> Inl e
                     | Inr d \<Rightarrow>
                         (case py_has_key (asc ''content'') d of
                            Inl e \<Rightarrow> Inl e
                          | Inr False \<Rightarrow> Inr None
                          | Inr True \<Rightarrow>
                              (case py_item d (asc ''content'') of
                                 Inl e \<Rightarrow> Inl e
                               | Inr (JStr raw) \<Rightarrow> Inr (Some (clean_content rt raw))
                               | Inr _ \<Rightarrow> Inl AttributeError))))))"

text \<open>
  \<open>download_chapter\<close>: the bare \<open>except: pass\<close> swallows every exception of the block
  and the function returns \<open>None\<close>. The result is \<open>Inl e\<close> when the call raises \<open>e\<close>
  to its caller, \<open>Inr v\<close> when it returns \<open>v\<close>. \<open>post\<close> gives what \<open>session.post\<close>
  does for the \<open>item_id\<close> \<open>iid\<close>.
\<close>

definition download_chapter ::
  "runtime \<Rightarrow> (ustr \<Rightarrow> error + response) \<Rightarrow> ustr \<Rightarrow> error + ustr option" where
  "download_chapter rt post iid =
     (case download_chapter_try rt (post iid) of
        Inl e \<Rightarrow> Inr None
      | Inr v \<Rightarrow> Inr v)"

section \<open>The download orchestrator\<close>

text \<open>
  What \<open>future.result()\<close> gives for one task: the value the fetcher returned
  (\<open>None\<close> or a string), or an exception, of which the loop uses only \<open>str(e)\<close>.
\<close>

datatype fetched = Returned "ustr option" | Raised ustr

text \<open>\<open>content or default\<close>: \<open>None\<close> and the empty string are falsy.\<close>

fun py_or :: "ustr option \<Rightarrow> ustr \<Rightarrow> ustr" where
  "py_or None d = d"
| "py_or (Some s) d = (if s = [] then d else s)"

text \<open>
  The text of a task that succeeded: the fetcher returned a string that is not empty.
\<close>

fun fetched_text :: "fetched \<Rightarrow> ustr option" where
  "fetched_text (Returned (Some s)) = (if s = [] then None else Some s)"
| "fetched_text (Returned None) = None"
| "fetched_text (Raised msg) = None"

text \<open>
  The body of the collection loop for the future of index \<open>idx\<close> (lines 232 to 237),
  for \<open>idx\<close> in range. The fetcher is a parameter: the task of index \<open>idx\<close> is the
  call \<open>fetch(chapters[idx]["item_id"])\<close>.
\<close>

definition chapter_entry :: "chapter_ref list \<Rightarrow> (ustr \<Rightarrow> fetched) \<Rightarrow> nat \<Rightarrow> chap_content" where
  "chapter_entry chapters fetch idx =
     (case fetch (item_id (chapters ! idx)) of
        Returned c \<Rightarrow>
          \<lparr>chap_content.title = chapter_ref.title (chapters ! idx),
           content = py_or c (placeholder idx)\<rparr>
      | Raised msg \<Rightarrow>
          \<lparr>chap_content.title = chapter_ref.title (chapters ! idx),
           content = placeholder_error idx msg\<rparr>)"

text \<open>
  The loop over \<open>as_completed(futures)\<close>: \<open>order\<close> lists the task indices in the
  order in which the futures complete, and each one appends its entry. An index that is
  not one of \<open>chapters\<close> would raise \<open>IndexError\<close> at \<open>chapters[idx]\<close>.
\<close>

fun collect :: "chapter_ref list \<Rightarrow> (ustr \<Rightarrow> fetched) \<Rightarrow> nat list \<Rightarrow> error + chap_content list" where
  "collect chapters fetch [] = Inr []"
| "collect chapters fetch (idx # rest) =
     (if idx < length chapters then
        (case collect chapters fetch rest of
           Inl e \<Rightarrow> Inl e
         | Inr cc \<Rightarrow> Inr (chapter_entry chapters fetch idx # cc))
      else Inl IndexError)"

text \<open>
  \<open>as_completed\<close> yields every submitted future exactly once, in an order the
  scheduler decides: a completion order of \<open>n\<close> tasks is a rearrangement of
  \<open>0, ..., n - 1\<close>.
\<close>

definition completion_order :: "nat \<Rightarrow> nat list \<Rightarrow> bool" where
  "completion_order n order = (sort order = [0..<n])"

text \<open>
  The sort key of line 239:
  \<open>chapters.index(next(c for c in chapters if c["title"] == x["title"]))\<close>.
  \<open>next\<close> raises \<open>StopIteration\<close> on an exhausted generator and \<open>list.index\<close>
  raises \<open>ValueError\<close> when nothing is equal; dictionaries are compared by value.
\<close>

fun py_next :: "'a list \<Rightarrow> error + 'a" where
  "py_next [] = Inl StopIteration"
| "py_next (x # xs) = Inr x"

fun py_index :: "'a list \<Rightarrow> 'a \<Rightarrow> error + nat" where
  "py_index [] y = Inl ValueError"
| "py_index (x # xs) y =
     (if x = y then Inr 0
      else (case py_index xs y of Inl e \<Rightarrow> Inl e | Inr i \<Rightarrow> Inr (Suc i)))"

definition title_key :: "chapter_ref list \<Rightarrow> chap_content \<Rightarrow> error + nat" where
  "title_key chapters x =
     (case py_next (filter (\<lambda>c. chapter_ref.title c = chap_content.title x) chapters) of
        Inl e \<Rightarrow> Inl e
      | Inr c \<Rightarrow> py_index chapters c)"

text \<open>
  The key that \<open>title_key\<close> computes when it does not raise: the index of the first
  chapter that has the title.
\<close>

definition first_with_title :: "chapter_ref list \<Rightarrow> ustr \<Rightarrow> nat" where
  "first_with_title chapters t = length (takeWhile (\<lambda>c. chapter_ref.title c \<noteq> t) chapters)"

text \<open>
  \<open>list.sort(key=...)\<close>: the key of every element is computed first, in list order (the
  first exception ends the sort), then the elements are sorted by key, stably.
\<close>

fun py_keys :: "('a \<Rightarrow> error + nat) \<Rightarrow> 'a list \<Rightarrow> error + (nat \<times> 'a) list" where
  "py_keys k [] = Inr []"
| "py_keys k (x # xs) =
     (case k x of
        Inl e \<Rightarrow> Inl e
      | Inr i \<Rightarrow> (case py_keys k xs of Inl e \<Rightarrow> Inl e | Inr ps \<Rightarrow> Inr ((i, x) # ps)))"

definition py_sort :: "('a \<Rightarrow> error + nat) \<Rightarrow> 'a list \<Rightarrow> error + 'a list" where
  "py_sort k xs =
     (case py_keys k xs of
        Inl e \<Rightarrow> Inl e
      | Inr ps \<Rightarrow> Inr (map snd (sort_key fst ps)))"

text \<open>
  \<open>ThreadPoolExecutor(max_workers=n)\<close> of the standard library raises
  \<open>ValueError\<close> when \<open>n <= 0\<close>; otherwise the pool runs every submitted task.
\<close>

definition ThreadPoolExecutor :: "int \<Rightarrow> error + nat" where
  "ThreadPoolExecutor max_workers =
     (if max_workers \<le> 0 then Inl ValueError else Inr (nat max_workers))"

text \<open>
  Lines 228 to 239 of \<open>download_novel\<close>: the pool is created with \<open>threads\<close>
  workers (the value of \<open>config["default_threads"]\<close>), every chapter is submitted, the
  entries are collected as the futures complete, and \<open>chap_contents\<close> is sorted.
\<close>

definition download_chapters ::
  "int \<Rightarrow> chapter_ref list \<Rightarrow> (ustr \<Rightarrow> fetched) \<Rightarrow> nat list \<Rightarrow> error + chap_content list" where
  "download_chapters threads chapters fetch order =
     (case ThreadPoolExecutor threads of
        Inl e \<Rightarrow> Inl e
      | Inr executor \<Rightarrow>
          (case collect chapters fetch order of
             Inl e \<Rightarrow> Inl e
           | Inr chap_contents \<Rightarrow> py_sort (title_key chapters) chap_contents))"

section \<open>The document builders\<close>

text \<open>
  The chapter loop of \<open>build_epub\<close> (lines 188 to 199), from the index \<open>i\<close> on: an
  entry with empty content is skipped, every other one becomes an \<open>EpubHtml\<close> item with a
  title, a file name and a body, numbered by its place in the list. U+7B2C and
  U+7AE0 U+FF1A stand around the number.
\<close>

record epub_html =
  html_title :: ustr
  file_name :: ustr
  html_content :: ustr

definition chapter_heading :: "nat \<Rightarrow> ustr \<Rightarrow> ustr" where
  "chapter_heading i t = [0x7B2C] @ py_str_nat (i + 1) @ [0x7AE0, 0xFF1A] @ t"

definition epub_chapter :: "nat \<Rightarrow> chap_content \<Rightarrow> epub_html" where
  "epub_chapter i chap =
     \<lparr>html_title = chapter_heading i (chap_content.title chap),
      file_name = asc ''chap_'' @ py_str_nat (i + 1) @ asc ''.xhtml'',
      html_content =
        asc ''<h2>'' @ chapter_heading i (chap_content.title chap) @ asc ''</h2><p>''
        @ py_replace [0x0A] (asc ''<br/>'') (content chap) @ asc ''</p>''\<rparr>"

fun epub_chapters :: "nat \<Rightarrow> chap_content list \<Rightarrow> epub_html list" where
  "epub_chapters i [] = []"
| "epub_chapters i (chap # rest) =
     (if content chap = [] then epub_chapters (i + 1) rest
      else epub_chapter i chap # epub_chapters (i + 1) rest)"

section \<open>The output file's name\<close>

text \<open>
  Lines 240 to 242. \<open>sanitize_filename\<close> raises \<open>TypeError\<close> on a value that is no
  string. The identifier is appended, after an underscore, when \<open>fname\<close> contains
  U+672A U+77E5.
\<close>

definition output_name :: "metadata \<Rightarrow> ustr \<Rightarrow> error + ustr" where
  "output_name metadata book_id =
     (case book_name metadata of
        JStr b \<Rightarrow>
          (case author metadata of
             JStr a \<Rightarrow>
               (let fname = sanitize_filename b @ asc ''-'' @ sanitize_filename a
                in Inr (if py_in unknown fname then fname @ asc ''_'' @ book_id else fname))
           | _ \<Rightarrow> Inl TypeError)
      | _ \<Rightarrow> Inl TypeError)"

section \<open>The whole run\<close>

text \<open>
  The network as a run meets it: what \<open>session.get\<close> does at the metadata endpoint and
  \<open>session.post\<close> at the chapter endpoint, and the order in which the futures complete.
  \<open>get_chapter_list\<close> is not embedded: \<open>directory\<close> gives its result for a book, the
  chapters (titles and identifiers taken to be strings) or, when it ends in
  \<open>sys.exit(1)\<close>, the lines it printed before.
\<close>

record network =
  info_get :: "ustr \<Rightarrow> error + response"
  directory :: "ustr \<Rightarrow> ustr list + chapter_ref list"
  down_post :: "ustr \<Rightarrow> error + response"
  completed :: "nat list"

definition get_chapter_list :: "network \<Rightarrow> ustr \<Rightarrow> chapter_ref list io" where
  "get_chapter_list net book_id =
     (case directory net book_id of
        Inl printed \<Rightarrow> (DirectoryRequest book_id # map Printed printed, Exit 1)
      | Inr chapters \<Rightarrow> ([DirectoryRequest book_id], Return chapters))"

text \<open>What \<open>future.result()\<close> does with the outcome of a task.\<close>

definition task_result :: "runtime \<Rightarrow> error + ustr option \<Rightarrow> fetched" where
  "task_result rt r = (case r of Inl e \<Rightarrow> Raised (err_str rt e) | Inr v \<Rightarrow> Returned v)"

text \<open>
  Lines 228 to 239 within a run: when the pool is created, every chapter is submitted
  (one request each) and the entries are collected and sorted.
\<close>

definition run_pool :: "runtime \<Rightarrow> config \<Rightarrow> network \<Rightarrow> chapter_ref list \<Rightarrow> chap_content list io" where
  "run_pool rt cfg net chapters =
     (case ThreadPoolExecutor (default_threads cfg) of
        Inl e \<Rightarrow> ([], Uncaught e)
      | Inr executor \<Rightarrow>
          (map (\<lambda>chap. DownRequest (item_id chap)) chapters,
           case download_chapters (default_threads cfg) chapters
                  (\<lambda>i. task_result rt (download_chapter rt (down_post net) i)) (completed net) of
             Inl e \<Rightarrow> Uncaught e
           | Inr chap_contents \<Rightarrow> Return chap_contents))"

text \<open>
  \<open>download_novel\<close>. The lines it prints are built from: "===== Text" U+4FE1 U+606F
  " =====" (the heading), U+4E66 U+540D U+FF1A (book name), U+4F5C U+8005 U+FF1A (author),
  U+7C7B U+578B U+FF1A (category), " | " U+72B6 U+6001 U+FF1A (status),
  U+672A U+627E U+5230 U+7AE0 U+8282 U+5217 U+8868 (no chapter list found),
  U+53D1 U+73B0 and U+4E2A U+7AE0 U+8282 U+FF0C U+5F00 U+59CB U+4E0B U+8F7D "..." around the
  number of chapters, U+4E0B U+8F7D U+5B8C U+6210 U+FF01 (download complete) and
  U+6587 U+4EF6 U+4FDD U+5B58 U+81F3 U+FF1A (file saved to). The progress bar is not
  modelled, and a builder is represented by the event of its call with the output path
  and the chapters handed to it. \<open>os.path.join\<close> is taken with the separator \<open>/\<close>.
\<close>

definition write_book ::
  "runtime \<Rightarrow> config \<Rightarrow> metadata \<Rightarrow> ustr \<Rightarrow> chap_content list \<Rightarrow> unit io" where
  "write_book rt cfg metadata book_id chap_contents =
     (case output_name metadata book_id of
        Inl e \<Rightarrow> ([], Uncaught e)
      | Inr fname \<Rightarrow>
          (let output_path = asc ''download/'' @ fname @ asc ''.'' @ default_format cfg
           in bind_io
                (emit (if default_format cfg = asc ''epub'' then BuildEpub output_path chap_contents
                       else BuildTxt output_path chap_contents))
                (\<lambda>_. emit (Printed (0x0A # wrap cfg [0x4E0B, 0x8F7D, 0x5B8C, 0x6210, 0xFF01] GREEN
                        @ [0x6587, 0x4EF6, 0x4FDD, 0x5B58, 0x81F3, 0xFF1A] @ abspath rt output_path)))))"

definition download_novel ::
  "runtime \<Rightarrow> config \<Rightarrow> network \<Rightarrow> (ustr \<rightharpoonup> metadata) \<Rightarrow> ustr \<Rightarrow> unit io" where
  "download_novel rt cfg net cache book_id =
     bind_io (emit (Printed (0x0A # wrap cfg (asc ''===== Text'' @ [0x4FE1, 0x606F] @ asc '' ====='') BLUE)))
       (\<lambda>_.
     bind_io (get_book_metadata rt cfg (info_get net) cache book_id)
       (\<lambda>(metadata, cache').
     bind_io (emit (Printed ([0x4E66, 0x540D, 0xFF1A] @ wrap cfg (fmt_json rt (book_name metadata)) PURPLE)))
       (\<lambda>_.
     bind_io (emit (Printed ([0x4F5C, 0x8005, 0xFF1A] @ fmt_json rt (author metadata))))
       (\<lambda>_.
     bind_io (emit (Printed ([0x7C7B, 0x578B, 0xFF1A] @ fmt_json rt (category metadata)
                @ asc '' | '' @ [0x72B6, 0x6001, 0xFF1A] @ status metadata)))
       (\<lambda>_.
     bind_io (get_chapter_list net book_id)
       (\<lambda>chapters.
     if chapters = [] then
       emit (Printed (wrap cfg [0x672A, 0x627E, 0x5230, 0x7AE0, 0x8282, 0x5217, 0x8868] RED))
     else
       bind_io (emit (Printed (0x0A # wrap cfg ([0x53D1, 0x73B0, 0x20] @ py_str_nat (length chapters)
                  @ [0x20, 0x4E2A, 0x7AE0, 0x8282, 0xFF0C, 0x5F00, 0x59CB, 0x4E0B, 0x8F7D] @ asc ''...'') GREEN)))
         (\<lambda>_.
       bind_io (run_pool rt cfg net chapters)
         (\<lambda>chap_contents. write_book rt cfg metadata book_id chap_contents))))))))"

text \<open>
  \<open>main\<close>, on \<open>sys.argv\<close>. An argument \<open>--threads=N\<close> stores \<open>int\<close> of the text
  between the first and the second \<open>=\<close>; when \<open>int\<close> raises, the argument is ignored.
  The usage line starts with U+7528 U+6CD5 and names the argument "TextID"
  U+6216 U+94FE U+63A5; the other message is U+65E0 U+6CD5 U+89E3 U+6790 "TextID" U+FF0C
  U+8BF7 U+68C0 U+67E5 U+8F93 U+5165 (the identifier cannot be parsed).
\<close>

definition apply_arg :: "runtime \<Rightarrow> config \<Rightarrow> ustr \<Rightarrow> config" where
  "apply_arg rt cfg arg =
     (if arg = asc ''--txt'' then cfg\<lparr>default_format := asc ''txt''\<rparr>
      else if arg = asc ''--epub'' then cfg\<lparr>default_format := asc ''epub''\<rparr>
      else if prefix (asc ''--threads='') arg then
        (case py_int rt (takeWhile (\<lambda>c. c \<noteq> 0x3D) (drop 1 (dropWhile (\<lambda>c. c \<noteq> 0x3D) arg))) of
           Inl e \<Rightarrow> cfg
         | Inr n \<Rightarrow> cfg\<lparr>default_threads := n\<rparr>)
      else cfg)"

definition main :: "runtime \<Rightarrow> config \<Rightarrow> network \<Rightarrow> ustr list \<Rightarrow> unit io" where
  "main rt cfg net argv =
     (if length argv < 2 then
        ([Printed ([0x7528, 0x6CD5] @ asc '': python downloader.py <TextID'' @ [0x6216, 0x94FE, 0x63A5]
            @ asc ''> [--epub|--txt] [--threads=N]'')], Exit 1)
      else case extract_book_id_from_url rt (argv ! 1) of
        None \<Rightarrow>
          ([Printed (wrap cfg ([0x65E0, 0x6CD5, 0x89E3, 0x6790] @ asc ''TextID''
              @ [0xFF0C, 0x8BF7, 0x68C0, 0x67E5, 0x8F93, 0x5165]) RED)], Exit 1)
      | Some book_id \<Rightarrow>
          download_novel rt (foldl (apply_arg rt) cfg (drop 2 argv)) net Map.empty book_id)"

section \<open>The cleaning steps, as the specification words them\<close>

text \<open>
  "Markers become newlines, entity escapes are decoded": \<open>replaced old new s t\<close> says
  that \<open>t\<close> is \<open>s\<close> with the occurrences of \<open>old\<close> replaced by \<open>new\<close>, taken from the
  left without overlap. Either \<open>old\<close> does not occur in \<open>s\<close> and \<open>t\<close> is \<open>s\<close>, or
  \<open>s\<close> is \<open>a @ old @ b\<close> where no occurrence of \<open>old\<close> starts earlier (none lies in
  \<open>a\<close> followed by all but the last character of \<open>old\<close>), and \<open>t\<close> is \<open>a\<close>, \<open>new\<close>
  and the rest replaced in the same way.
\<close>

inductive replaced :: "ustr \<Rightarrow> ustr \<Rightarrow> ustr \<Rightarrow> ustr \<Rightarrow> bool" for old new where
  replaced_none: "\<not> sublist old s \<Longrightarrow> replaced old new s s"
| replaced_first:
    "\<not> sublist old (a @ butlast old) \<Longrightarrow> replaced old new b t
     \<Longrightarrow> replaced old new (a @ old @ b) (a @ new @ t)"

text \<open>
  "Leftover paragraph-index tags are stripped": a tag is \<open><p idx="\<close>, one or more
  decimal digits and \<open>">\<close>; \<open>tags_removed nd s t\<close> says that \<open>t\<close> is \<open>s\<close> without its
  tags, taken from the left without overlap: either no tag occurs in \<open>s\<close>, or \<open>s\<close> is
  \<open>a @ tag @ b\<close> where no tag starts within \<open>a\<close>, and \<open>t\<close> is \<open>a\<close> and the rest
  without its tags.
\<close>

definition tag_open :: ustr where
  "tag_open = asc ''<p idx='' @ [0x22]"

definition tag_close :: ustr where
  "tag_close = [0x22] @ asc ''>''"

definition p_idx_tag :: "(nat \<Rightarrow> bool) \<Rightarrow> ustr \<Rightarrow> bool" where
  "p_idx_tag nd t = (\<exists>ds. ds \<noteq> [] \<and> list_all nd ds \<and> t = tag_open @ ds @ tag_close)"

inductive tags_removed :: "(nat \<Rightarrow> bool) \<Rightarrow> ustr \<Rightarrow> ustr \<Rightarrow> bool" for nd where
  tags_none: "(\<forall>t. p_idx_tag nd t \<longrightarrow> \<not> sublist t s) \<Longrightarrow> tags_removed nd s s"
| tags_first:
    "p_idx_tag nd t
     \<Longrightarrow> (\<forall>a1 a2 t'. a = a1 @ a2 \<and> a2 \<noteq> [] \<and> p_idx_tag nd t' \<longrightarrow> \<not> prefix t' (a2 @ t @ b))
     \<Longrightarrow> tags_removed nd b r
     \<Longrightarrow> tags_removed nd (a @ t @ b) (a @ r)"

text \<open>
  "Surrounding whitespace is trimmed": \<open>t\<close> is \<open>s\<close> without a run of whitespace at
  each end, and \<open>t\<close> itself neither starts nor ends with whitespace.
\<close>

definition trimmed :: "ustr \<Rightarrow> ustr \<Rightarrow> bool" where
  "trimmed s t =
     (\<exists>l r. s = l @ t @ r \<and> list_all py_isspace l \<and> list_all py_isspace r
        \<and> (t = [] \<or> (\<not> py_isspace (hd t) \<and> \<not> py_isspace (last t))))"

section \<open>Responses of the chapter endpoint\<close>

text \<open>
  The parts of a decoded response the specification speaks of: its status code (the
  \<open>code\<close> entry, \<open>None\<close> when there is none or the body is no object) and its content
  field (the \<open>content\<close> entry of the object under \<open>data\<close>).
\<close>

definition response_code :: "json \<Rightarrow> json" where
  "response_code data =
     (case data of
        JObj kv \<Rightarrow> (case map_of kv (asc ''code'') of Some c \<Rightarrow> c | None \<Rightarrow> JNull)
      | _ \<Rightarrow> JNull)"

definition response_content :: "json \<Rightarrow> json option" where
  "response_content data =
     (case data of
        JObj kv \<Rightarrow>
          (case map_of kv (asc ''data'') of
             Some (JObj d) \<Rightarrow> map_of d (asc ''content'')
           | _ \<Rightarrow> None)
      | _ \<Rightarrow> None)"

text \<open>
  A failed fetch, in the words of the specification: a timeout or a connection error (the
  request raises), a body that is not JSON, a status code that is not the success code
  \<open>0\<close>, or no content field.
\<close>

definition fetch_failed :: "error + response \<Rightarrow> bool" where
  "fetch_failed posted =
     (case posted of
        Inl e \<Rightarrow> True
      | Inr (Response st body) \<Rightarrow>
          (case body of
             Inl e \<Rightarrow> True
           | Inr data \<Rightarrow> \<not> py_eq_zero (response_code data) \<or> response_content data = None))"

section \<open>Failures of the metadata request\<close>

text \<open>
  The two ways the metadata request fails, in the words of the specification: the fetch
  itself fails (the request raises, the HTTP status is an error, or the body is not JSON),
  or the response is a JSON object whose \<open>code\<close> is not \<open>0\<close> (a missing \<open>code\<close>
  reads as \<open>None\<close>).
\<close>

definition metadata_fetch_failed :: "error + response \<Rightarrow> bool" where
  "metadata_fetch_failed got =
     (case got of
        Inl e \<Rightarrow> True
      | Inr (Response st body) \<Rightarrow>
          (400 \<le> st \<and> st < 600) \<or> (case body of Inl e \<Rightarrow> True | Inr data \<Rightarrow> False))"

definition metadata_code_rejected :: "error + response \<Rightarrow> bool" where
  "metadata_code_rejected got =
     (case got of
        Inr (Response st (Inr (JObj kv))) \<Rightarrow>
          \<not> py_eq_zero (case map_of kv (asc ''code'') of Some c \<Rightarrow> c | None \<Rightarrow> JNull)
      | _ \<Rightarrow> False)"

section \<open>Example inputs\<close>

text \<open>A chapter with an ASCII title and identifier, for the concrete runs below.\<close>

definition ch :: "string \<Rightarrow> string \<Rightarrow> chapter_ref" where
  "ch t i = \<lparr>chapter_ref.title = asc t, item_id = asc i\<rparr>"

text \<open>
  A runtime for the concrete runs: the ASCII digits as decimal digits, \<open>int\<close> known on
  the strings \<open>0\<close> and \<open>2\<close>, and fixed texts for what is formatted.
\<close>

definition ascii_runtime :: runtime where
  "ascii_runtime =
     \<lparr>is_decimal = (\<lambda>c. 0x30 \<le> c \<and> c \<le> 0x39),
      err_str = (\<lambda>e. asc ''error''),
      fmt = (\<lambda>v. asc ''?''),
      fmt_wan = (\<lambda>v. Inl TypeError),
      py_int = (\<lambda>s. if s = asc ''0'' then Inr 0 else if s = asc ''2'' then Inr 2 else Inl ValueError),
      abspath = (\<lambda>p. asc ''/'' @ p)\<rparr>"

text \<open>
  A response with status 200 and the body \<open>{"code": 0, "data": d}\<close>, and a network
  that serves a book with two chapters whose second future completes first.
\<close>

definition ok_body :: "json \<Rightarrow> error + response" where
  "ok_body d = Inr (Response 200 (Inr (JObj [(asc ''code'', JInt 0), (asc ''data'', d)])))"

definition dune_network :: network where
  "dune_network =
     \<lparr>info_get = (\<lambda>b. ok_body (JArr [JObj [(asc ''book_name'', JStr (asc ''Dune'')),
                                            (asc ''author'', JStr (asc ''Herbert''))]])),
      directory = (\<lambda>b. Inr [ch ''One'' ''1'', ch ''Two'' ''2'']),
      down_post = (\<lambda>i. ok_body (JObj [(asc ''content'', JStr (asc ''<p idx='' @ [0x22] @ i @ [0x22] @ asc ''>Hi</p>''))])),
      completed = [1, 0]\<rparr>"

text \<open>The same network with a metadata endpoint that answers \<open>{"code": 1}\<close>.\<close>

definition rejecting_network :: network where
  "rejecting_network =
     dune_network\<lparr>info_get := (\<lambda>b. Inr (Response 200 (Inr (JObj [(asc ''code'', JInt 1)]))))\<rparr>"

text \<open>
  The metadata read for the book 1234567890 from a response that carries the book name
  "Dune" and nothing else: the author and the other fields keep their defaults, the status
  is the second status text.
\<close>

definition dune_metadata :: metadata where
  "dune_metadata =
     (default_metadata (asc ''1234567890''))
       \<lparr>book_name := JStr (asc ''Dune''), status := [0x5DF2, 0x5B8C, 0x7ED3]\<rparr>"

text \<open>The metadata read for the book 1234567890 from the response of \<open>dune_network\<close>.\<close>

definition herbert_metadata :: metadata where
  "herbert_metadata =
     (default_metadata (asc ''1234567890''))
       \<lparr>book_name := JStr (asc ''Dune''), author := JStr (asc ''Herbert''),
        status := [0x5DF2, 0x5B8C, 0x7ED3]\<rparr>"

text \<open>
  Metadata of which nothing is known: every value read from the response is the default.
\<close>

definition entirely_unknown :: "metadata \<Rightarrow> ustr \<Rightarrow> bool" where
  "entirely_unknown md book_id =
     (book_name md = book_name (default_metadata book_id)
      \<and> author md = author (default_metadata book_id)
      \<and> summary md = summary (default_metadata book_id)
      \<and> cover_url md = cover_url (default_metadata book_id)
      \<and> category md = category (default_metadata book_id)
      \<and> word_count md = word_count (default_metadata book_id)
      \<and> readers md = readers (default_metadata book_id))"

text \<open>
  A chapter response: two paragraphs with their tags, quotes and an ampersand as entities,
  and a trailing space.
\<close>

definition chapter_markup :: ustr where
  "chapter_markup =
     asc ''<p idx='' @ [0x22] @ asc ''12'' @ [0x22] @ asc ''>He said &quot;hi&quot; &amp; left</p>''
     @ asc ''<p idx='' @ [0x22] @ asc ''13'' @ [0x22] @ asc ''>Bye</p> ''"

definition chapter_body :: json where
  "chapter_body =
     JObj [(asc ''code'', JInt 0), (asc ''data'', JObj [(asc ''content'', JStr chapter_markup)])]"

definition chapter_network :: "ustr \<Rightarrow> error + response" where
  "chapter_network i = Inr (Response 200 (Inr chapter_body))"

text \<open>The events that are requests to an endpoint.\<close>

fun is_request :: "event \<Rightarrow> bool" where
  "is_request (DownRequest i) = True"
| "is_request (DirectoryRequest b) = True"
| "is_request (InfoRequest b) = True"
| "is_request e = False"

section \<open>Properties of the orchestrator\<close>

lemma completion_order_mset:
  assumes "completion_order n order"
  shows "mset order = mset [0..<n]"
proof -
  have "mset (sort order) = mset order" by simp
  with assms show ?thesis by (simp add: completion_order_def)
qed

lemma completion_order_set:
  assumes "completion_order n order"
  shows "set order = {0..<n}"
proof -
  have "set order = set_mset (mset order)" by simp
  also have "\<dots> = set_mset (mset [0..<n])"
    using completion_order_mset [OF assms] by simp
  finally show ?thesis by simp
qed

lemma collect_in_range:
  assumes "\<forall>i \<in> set order. i < length chapters"
  shows "collect chapters fetch order = Inr (map (chapter_entry chapters fetch) order)"
  using assms by (induction order) simp_all

lemma py_keys_total:
  assumes "\<forall>x \<in> set xs. k x = Inr (f x)"
  shows "py_keys k xs = Inr (map (\<lambda>x. (f x, x)) xs)"
  using assms by (induction xs) simp_all

lemma insort_key_decorate:
  "insort_key fst (f x, x) (map (\<lambda>y. (f y, y)) zs) = map (\<lambda>y. (f y, y)) (insort_key f x zs)"
  by (induction zs) simp_all

lemma sort_key_decorate:
  "sort_key fst (map (\<lambda>y. (f y, y)) xs) = map (\<lambda>y. (f y, y)) (sort_key f xs)"
  by (induction xs) (simp_all add: insort_key_decorate)

lemma py_sort_total:
  assumes "\<forall>x \<in> set xs. k x = Inr (f x)"
  shows "py_sort k xs = Inr (sort_key f xs)"
proof -
  have "map snd (sort_key fst (map (\<lambda>y. (f y, y)) xs)) = sort_key f xs"
    by (simp add: sort_key_decorate comp_def)
  then show ?thesis
    by (simp add: py_sort_def py_keys_total [OF assms])
qed

lemma py_index_first:
  assumes "P c" and "filter P xs = c # rest"
  shows "py_index xs c = Inr (length (takeWhile (\<lambda>x. \<not> P x) xs))"
  using assms
proof (induction xs arbitrary: rest)
  case Nil
  then show ?case by simp
next
  case (Cons x xs)
  show ?case
  proof (cases "P x")
    case True
    with Cons.prems have "x = c" by simp
    with True show ?thesis by simp
  next
    case False
    with Cons.prems have "filter P xs = c # rest" by simp
    from Cons.IH [OF Cons.prems(1) this] False Cons.prems(1) show ?thesis by auto
  qed
qed

lemma title_key_entry:
  assumes "t \<in> chapter_ref.title ` set chapters" and "chap_content.title x = t"
  shows "title_key chapters x = Inr (first_with_title chapters t)"
proof -
  let ?P = "\<lambda>c. chapter_ref.title c = t"
  from assms(1) have "filter ?P chapters \<noteq> []" by (auto simp: filter_empty_conv)
  then obtain c rest where f: "filter ?P chapters = c # rest" by (cases "filter ?P chapters") auto
  then have "c \<in> set (filter ?P chapters)" by simp
  then have pc: "?P c" by simp
  have "py_index chapters c = Inr (length (takeWhile (\<lambda>x. \<not> ?P x) chapters))"
    by (rule py_index_first [where P = ?P, OF pc f])
  with f assms(2) show ?thesis by (simp add: title_key_def first_with_title_def)
qed

lemma chapter_entry_title:
  "chap_content.title (chapter_entry chapters fetch idx) = chapter_ref.title (chapters ! idx)"
  by (simp add: chapter_entry_def split: fetched.splits)

lemma first_with_title_distinct:
  assumes "distinct (map chapter_ref.title chapters)" and "i < length chapters"
  shows "first_with_title chapters (chapter_ref.title (chapters ! i)) = i"
  using assms
proof (induction chapters arbitrary: i)
  case Nil
  then show ?case by simp
next
  case (Cons c cs)
  show ?case
  proof (cases i)
    case 0
    then show ?thesis by (simp add: first_with_title_def)
  next
    case (Suc j)
    with Cons.prems have j: "j < length cs" and d: "distinct (map chapter_ref.title cs)"
      and n: "chapter_ref.title c \<notin> chapter_ref.title ` set cs" by auto
    from j have "chapter_ref.title (cs ! j) \<in> chapter_ref.title ` set cs" by simp
    with n have "chapter_ref.title c \<noteq> chapter_ref.title (cs ! j)" by metis
    with Cons.IH [OF d j] Suc show ?thesis by (simp add: first_with_title_def)
  qed
qed

lemma download_chapters_sorted:
  assumes "0 < threads" and "completion_order (length chapters) order"
  shows "download_chapters threads chapters fetch order =
         Inr (sort_key (\<lambda>x. first_with_title chapters (chap_content.title x))
                (map (chapter_entry chapters fetch) order))"
proof -
  have rng: "\<forall>i \<in> set order. i < length chapters"
    using completion_order_set [OF assms(2)] by simp
  have keys: "\<forall>x \<in> set (map (chapter_entry chapters fetch) order).
                title_key chapters x = Inr (first_with_title chapters (chap_content.title x))"
  proof
    fix x assume "x \<in> set (map (chapter_entry chapters fetch) order)"
    then obtain i where i: "i \<in> set order" and x: "x = chapter_entry chapters fetch i" by auto
    from i rng have "i < length chapters" by simp
    then have "chapter_ref.title (chapters ! i) \<in> chapter_ref.title ` set chapters" by simp
    then show "title_key chapters x = Inr (first_with_title chapters (chap_content.title x))"
      using x by (intro title_key_entry) (simp_all add: chapter_entry_title)
  qed
  show ?thesis
    using assms(1)
    by (simp add: download_chapters_def ThreadPoolExecutor_def collect_in_range [OF rng]
        py_sort_total [OF keys])
qed


lemma download_chapters_positional:
  assumes "0 < threads" and "completion_order (length chapters) order"
    and "distinct (map chapter_ref.title chapters)"
  shows "download_chapters threads chapters fetch order =
         Inr (map (chapter_entry chapters fetch) [0..<length chapters])"
proof -
  let ?n = "length chapters"
  let ?e = "chapter_entry chapters fetch"
  let ?f = "\<lambda>x. first_with_title chapters (chap_content.title x)"
  let ?xs = "sort_key ?f (map ?e order)"
  let ?ys = "map ?e [0..<?n]"
  have so: "set order = {0..<?n}" by (rule completion_order_set [OF assms(2)])
  have fe: "?f (?e i) = i" if "i < ?n" for i
    using that by (simp add: chapter_entry_title first_with_title_distinct [OF assms(3)])
  have m1: "map ?f ?ys = [0..<?n]"
    unfolding map_map comp_def by (rule map_idI) (simp add: fe)
  have "map ?f (map ?e order) = order"
    unfolding map_map comp_def by (rule map_idI) (use so in \<open>simp add: fe\<close>)
  then have "mset (map ?f ?xs) = mset order"
    by (metis mset_map mset_sort)
  then have m2: "mset (map ?f ?xs) = mset [0..<?n]"
    using completion_order_mset [OF assms(2)] by simp
  have d2: "distinct (map ?f ?xs)"
    using m2 by (metis distinct_upt mset_eq_imp_distinct_iff)
  have sets: "set ?xs = set ?ys" using so by simp
  have inj: "inj_on ?f (set ?xs \<union> set ?ys)"
  proof (rule inj_onI)
    fix a b
    assume a: "a \<in> set ?xs \<union> set ?ys" and b: "b \<in> set ?xs \<union> set ?ys" and ab: "?f a = ?f b"
    from a sets obtain i where i: "i < ?n" "a = ?e i" by auto
    from b sets obtain j where j: "j < ?n" "b = ?e j" by auto
    from ab i j have "i = j" by (simp add: fe)
    with i j show "a = b" by simp
  qed
  have "?xs = ?ys"
  proof (rule map_sorted_distinct_set_unique [OF inj])
    show "sorted (map ?f ?xs)" by simp
    show "distinct (map ?f ?xs)" by (rule d2)
    show "sorted (map ?f ?ys)" unfolding m1 by simp
    show "distinct (map ?f ?ys)" unfolding m1 by simp
    show "set ?xs = set ?ys" by (rule sets)
  qed
  then show ?thesis
    using download_chapters_sorted [OF assms(1,2)] by simp
qed

lemma download_chapters_mset:
  assumes "0 < threads" and "completion_order (length chapters) order"
  shows "\<exists>rs. download_chapters threads chapters fetch order = Inr rs
           \<and> length rs = length chapters
           \<and> mset rs = mset (map (chapter_entry chapters fetch) [0..<length chapters])"
proof -
  let ?e = "chapter_entry chapters fetch"
  let ?rs = "sort_key (\<lambda>x. first_with_title chapters (chap_content.title x)) (map ?e order)"
  have "mset ?rs = image_mset ?e (mset order)" by simp
  also have "\<dots> = image_mset ?e (mset [0..<length chapters])"
    using completion_order_mset [OF assms(2)] by simp
  finally have m: "mset ?rs = mset (map ?e [0..<length chapters])" by simp
  then have "size (mset ?rs) = size (mset (map ?e [0..<length chapters]))" by simp
  then have "length ?rs = length chapters" by simp
  with m download_chapters_sorted [OF assms] show ?thesis by blast
qed


lemma placeholder_nonempty: "placeholder idx \<noteq> []"
  by (simp add: placeholder_def)

lemma placeholder_error_nonempty: "placeholder_error idx msg \<noteq> []"
  by (simp add: placeholder_error_def)

lemma chapter_entry_content:
  "content (chapter_entry chapters fetch idx) =
     (case fetch (item_id (chapters ! idx)) of
        Raised msg \<Rightarrow> placeholder_error idx msg
      | Returned c \<Rightarrow> (case fetched_text (Returned c) of Some s \<Rightarrow> s | None \<Rightarrow> placeholder idx))"
  by (cases "fetch (item_id (chapters ! idx))" rule: fetched_text.cases)
     (simp_all add: chapter_entry_def)

lemma chapter_entry_nonempty: "content (chapter_entry chapters fetch idx) \<noteq> []"
  by (cases "fetch (item_id (chapters ! idx))" rule: fetched_text.cases)
     (simp_all add: chapter_entry_def placeholder_nonempty placeholder_error_nonempty)

lemma chapter_entry_record:
  "chapter_entry chapters fetch i =
     \<lparr>chap_content.title = chapter_ref.title (chapters ! i),
      content =
        (case fetch (item_id (chapters ! i)) of
           Returned None \<Rightarrow> placeholder i
         | Returned (Some s) \<Rightarrow> (if s = [] then placeholder i else s)
         | Raised msg \<Rightarrow> placeholder_error i msg)\<rparr>"
  by (cases "fetch (item_id (chapters ! i))" rule: fetched_text.cases)
     (simp_all add: chapter_entry_def)

lemma epub_chapters_nonempty:
  assumes "list_all (\<lambda>r. content r \<noteq> []) rs"
  shows "epub_chapters i rs = map (\<lambda>(j, chap). epub_chapter j chap) (enumerate i rs)"
  using assms by (induction rs arbitrary: i) simp_all

lemmas eval_defs = download_chapters_def ThreadPoolExecutor_def py_sort_def title_key_def
  chapter_entry_def ch_def asc_def completion_order_def placeholder_def placeholder_error_def

lemmas run_defs = main_def download_novel_def bind_io_def emit_def get_book_metadata_def book_info_def
  read_book_data_def default_metadata_def get_chapter_list_def run_pool_def write_book_def output_name_def
  extract_book_id_from_url_def apply_arg_def ascii_runtime_def dune_network_def ok_body_def DEFAULT_CONFIG_def
  wrap_def fmt_json_def


subsection \<open>One entry per chapter\<close>

text \<open>
  Claim C2. For every list of chapters, every number of workers of at least 1 and every
  completion order, the orchestrator returns a list with exactly one entry per chapter:
  it has the length of \<open>chapters\<close>, and as a multiset its entries are the entries of the
  chapters \<open>0, ..., n - 1\<close>. The entry of chapter \<open>i\<close> carries the title of the chapter
  and, as content, the text the fetcher returned when that is a non-empty string, the
  placeholder of chapter \<open>i\<close> when the fetcher returned \<open>None\<close> or an empty string, and
  the placeholder with the error's text when it raised. No chapter is dropped.
\<close>

theorem download_chapters_one_per_chapter:
  assumes "1 \<le> threads" and "completion_order (length chapters) order"
  shows "\<exists>rs. download_chapters threads chapters fetch order = Inr rs
           \<and> length rs = length chapters
           \<and> mset rs = mset (map (chapter_entry chapters fetch) [0..<length chapters])
           \<and> mset (map chap_content.title rs) = mset (map chapter_ref.title chapters)
           \<and> mset rs = mset (map (\<lambda>i.
                 \<lparr>chap_content.title = chapter_ref.title (chapters ! i),
                  content =
                    (case fetch (item_id (chapters ! i)) of
                       Returned None \<Rightarrow> placeholder i
                     | Returned (Some s) \<Rightarrow> (if s = [] then placeholder i else s)
                     | Raised msg \<Rightarrow> placeholder_error i msg)\<rparr>) [0..<length chapters])"
proof -
  from assms(1) have t: "0 < threads" by simp
  from download_chapters_mset [OF t assms(2)]
  obtain rs where rs: "download_chapters threads chapters fetch order = Inr rs"
    "length rs = length chapters"
    "mset rs = mset (map (chapter_entry chapters fetch) [0..<length chapters])"
    by blast
  have "map chap_content.title (map (chapter_entry chapters fetch) [0..<length chapters])
        = map chapter_ref.title chapters"
    by (rule nth_equalityI) (simp_all add: chapter_entry_title)
  moreover have "mset (map chap_content.title rs)
        = mset (map chap_content.title (map (chapter_entry chapters fetch) [0..<length chapters]))"
    using rs(3) by (metis mset_map)
  ultimately have ti: "mset (map chap_content.title rs) = mset (map chapter_ref.title chapters)"
    by simp
  have "chapter_entry chapters fetch = (\<lambda>i.
                 \<lparr>chap_content.title = chapter_ref.title (chapters ! i),
                  content =
                    (case fetch (item_id (chapters ! i)) of
                       Returned None \<Rightarrow> placeholder i
                     | Returned (Some s) \<Rightarrow> (if s = [] then placeholder i else s)
                     | Raised msg \<Rightarrow> placeholder_error i msg)\<rparr>)"
    by (rule ext) (rule chapter_entry_record)
  with rs(3) have ex: "mset rs = mset (map (\<lambda>i.
                 \<lparr>chap_content.title = chapter_ref.title (chapters ! i),
                  content =
                    (case fetch (item_id (chapters ! i)) of
                       Returned None \<Rightarrow> placeholder i
                     | Returned (Some s) \<Rightarrow> (if s = [] then placeholder i else s)
                     | Raised msg \<Rightarrow> placeholder_error i msg)\<rparr>) [0..<length chapters])"
    by simp
  from rs ti ex show ?thesis by blast
qed

theorem download_chapters_one_per_chapter_witness:
  "(1::int) \<le> 2 \<and> completion_order (length [ch ''A'' ''1'', ch ''B'' ''2'']) [1, 0]
   \<and> (\<exists>rs. download_chapters 2 [ch ''A'' ''1'', ch ''B'' ''2'']
          (\<lambda>i. if i = asc ''1'' then Returned (Some (asc ''x'')) else Raised (asc ''timeout'')) [1, 0] = Inr rs
        \<and> length rs = 2
        \<and> mset rs = mset [\<lparr>chap_content.title = asc ''A'', content = asc ''x''\<rparr>,
                           \<lparr>chap_content.title = asc ''B'',
                            content = placeholder_error 1 (asc ''timeout'')\<rparr>])"
proof -
  let ?cs = "[ch ''A'' ''1'', ch ''B'' ''2'']"
  let ?f = "\<lambda>i. if i = asc ''1'' then Returned (Some (asc ''x'')) else Raised (asc ''timeout'')"
  have h1: "(1::int) \<le> 2" by simp
  have h2: "completion_order (length ?cs) [1, 0]"
    by (simp add: completion_order_def upt_rec)
  from download_chapters_one_per_chapter [OF h1 h2, of ?f]
  obtain rs where rs: "download_chapters 2 ?cs ?f [1, 0] = Inr rs" "length rs = length ?cs"
    "mset rs = mset (map (\<lambda>i.
                 \<lparr>chap_content.title = chapter_ref.title (?cs ! i),
                  content =
                    (case ?f (item_id (?cs ! i)) of
                       Returned None \<Rightarrow> placeholder i
                     | Returned (Some s) \<Rightarrow> (if s = [] then placeholder i else s)
                     | Raised msg \<Rightarrow> placeholder_error i msg)\<rparr>) [0..<length ?cs])"
    by blast
  have "map (\<lambda>i.
                 \<lparr>chap_content.title = chapter_ref.title (?cs ! i),
                  content =
                    (case ?f (item_id (?cs ! i)) of
                       Returned None \<Rightarrow> placeholder i
                     | Returned (Some s) \<Rightarrow> (if s = [] then placeholder i else s)
                     | Raised msg \<Rightarrow> placeholder_error i msg)\<rparr>) [0..<length ?cs]
        = [\<lparr>chap_content.title = asc ''A'', content = asc ''x''\<rparr>,
           \<lparr>chap_content.title = asc ''B'', content = placeholder_error 1 (asc ''timeout'')\<rparr>]"
    by (simp add: upt_rec ch_def asc_def)
  with rs(3) have "mset rs = mset [\<lparr>chap_content.title = asc ''A'', content = asc ''x''\<rparr>,
           \<lparr>chap_content.title = asc ''B'', content = placeholder_error 1 (asc ''timeout'')\<rparr>]"
    by (simp only:)
  moreover from rs(2) have "length rs = 2" by simp
  ultimately show ?thesis using rs(1) h1 h2 by blast
qed

subsection \<open>The order of the result\<close>

text \<open>
  Claim C1 says that the entry at position \<open>i\<close> of the result carries the title of chapter
  \<open>i\<close>, for every non-empty list of chapters. The sort key looks a title up among the
  chapters, so entries with equal titles all get the index of the first of them. With the
  chapters titled A, B, A (identifiers 1, 2, 3), a fetcher that returns the identifier as
  the text, and the tasks completing in the order of submission, the result is titled
  A, A, B: the third chapter has moved before the second.
\<close>

theorem download_chapters_duplicate_titles:
  "download_chapters 4 [ch ''A'' ''1'', ch ''B'' ''2'', ch ''A'' ''3''] (\<lambda>i. Returned (Some i)) [0, 1, 2]
   = Inr [\<lparr>chap_content.title = asc ''A'', content = asc ''1''\<rparr>,
          \<lparr>chap_content.title = asc ''A'', content = asc ''3''\<rparr>,
          \<lparr>chap_content.title = asc ''B'', content = asc ''2''\<rparr>]"
  by (simp add: eval_defs)

text \<open>
  Claim C3 says that when the fetcher fails for the chapter of index \<open>k\<close> only, the
  placeholder is at position \<open>k\<close> of the result and fetched text everywhere else. With the
  same chapters A, B, A and a fetcher that returns nothing for the second chapter (index 1)
  only, position 1 of the result holds the text of the third chapter, and the placeholder,
  which names chapter 2, is at position 2.
\<close>

theorem download_chapters_failure_displaced:
  "download_chapters 4 [ch ''A'' ''1'', ch ''B'' ''2'', ch ''A'' ''3'']
     (\<lambda>i. if i = asc ''2'' then Returned None else Returned (Some i)) [0, 1, 2]
   = Inr [\<lparr>chap_content.title = asc ''A'', content = asc ''1''\<rparr>,
          \<lparr>chap_content.title = asc ''A'', content = asc ''3''\<rparr>,
          \<lparr>chap_content.title = asc ''B'', content = placeholder 1\<rparr>]"
  by (simp add: eval_defs)

text \<open>
  Claim C6 says that two runs against the same deterministic fetcher give the same
  sequence whatever the completion orders. With two chapters of the same title A
  (identifiers 1 and 2), the sort leaves the entries in the order of completion, and the
  two completion orders give two different results.
\<close>

theorem download_chapters_order_dependent:
  "completion_order 2 [0, 1] \<and> completion_order 2 [1, 0]
   \<and> download_chapters 4 [ch ''A'' ''1'', ch ''A'' ''2''] (\<lambda>i. Returned (Some i)) [0, 1]
       = Inr [\<lparr>chap_content.title = asc ''A'', content = asc ''1''\<rparr>,
              \<lparr>chap_content.title = asc ''A'', content = asc ''2''\<rparr>]
   \<and> download_chapters 4 [ch ''A'' ''1'', ch ''A'' ''2''] (\<lambda>i. Returned (Some i)) [1, 0]
       = Inr [\<lparr>chap_content.title = asc ''A'', content = asc ''2''\<rparr>,
              \<lparr>chap_content.title = asc ''A'', content = asc ''1''\<rparr>]"
  by (simp add: eval_defs upt_rec)

subsection \<open>Chapters with pairwise distinct titles\<close>

text \<open>
  When no two chapters share a title, the sort restores the order of the chapters: for
  every number of workers of at least 1 and every completion order, the result is the list
  of the entries of the chapters \<open>0, ..., n - 1\<close> in this order, and its titles are the
  titles of the chapters, position by position.
\<close>

theorem titles_distinct_in_order:
  assumes "1 \<le> threads" and "completion_order (length chapters) order"
    and "distinct (map chapter_ref.title chapters)"
  shows "download_chapters threads chapters fetch order
           = Inr (map (chapter_entry chapters fetch) [0..<length chapters])
         \<and> (\<forall>rs. download_chapters threads chapters fetch order = Inr rs
               \<longrightarrow> map chap_content.title rs = map chapter_ref.title chapters)"
proof -
  from assms(1) have t: "0 < threads" by simp
  have r: "download_chapters threads chapters fetch order
           = Inr (map (chapter_entry chapters fetch) [0..<length chapters])"
    by (rule download_chapters_positional [OF t assms(2,3)])
  have "map chap_content.title (map (chapter_entry chapters fetch) [0..<length chapters])
        = map chapter_ref.title chapters"
    by (rule nth_equalityI) (simp_all add: chapter_entry_title)
  with r show ?thesis by simp
qed

theorem titles_distinct_in_order_witness:
  "(1::int) \<le> 2 \<and> completion_order (length [ch ''A'' ''1'', ch ''B'' ''2'']) [1, 0]
   \<and> distinct (map chapter_ref.title [ch ''A'' ''1'', ch ''B'' ''2''])
   \<and> download_chapters 2 [ch ''A'' ''1'', ch ''B'' ''2''] (\<lambda>i. Returned (Some i)) [1, 0]
       = Inr (map (chapter_entry [ch ''A'' ''1'', ch ''B'' ''2''] (\<lambda>i. Returned (Some i)))
               [0..<length [ch ''A'' ''1'', ch ''B'' ''2'']])"
proof -
  have h1: "(1::int) \<le> 2" by simp
  have h2: "completion_order (length [ch ''A'' ''1'', ch ''B'' ''2'']) [1, 0]"
    by (simp add: completion_order_def upt_rec)
  have h3: "distinct (map chapter_ref.title [ch ''A'' ''1'', ch ''B'' ''2''])"
    by (simp add: ch_def asc_def)
  from titles_distinct_in_order [OF h1 h2 h3] h1 h2 h3 show ?thesis by blast
qed

text \<open>
  When no two chapters share a title and the fetcher fails for the chapter of index \<open>k\<close>
  only (it returns \<open>None\<close> or an empty string, or raises), position \<open>k\<close> of the result
  holds the placeholder with the number \<open>k + 1\<close> (with the error's text when the fetcher
  raised) and every other position holds the text fetched for its chapter.
\<close>

theorem titles_distinct_failure_isolated:
  assumes "1 \<le> threads" and "completion_order (length chapters) order"
    and "distinct (map chapter_ref.title chapters)"
    and "k < length chapters"
    and "fetched_text (fetch (item_id (chapters ! k))) = None"
    and "\<forall>i < length chapters. i \<noteq> k \<longrightarrow> fetched_text (fetch (item_id (chapters ! i))) \<noteq> None"
  shows "\<exists>rs. download_chapters threads chapters fetch order = Inr rs
           \<and> length rs = length chapters
           \<and> content (rs ! k) =
                (case fetch (item_id (chapters ! k)) of
                   Raised msg \<Rightarrow> placeholder_error k msg | Returned c \<Rightarrow> placeholder k)
           \<and> (\<forall>i < length chapters. i \<noteq> k \<longrightarrow>
                 fetched_text (fetch (item_id (chapters ! i))) = Some (content (rs ! i)))"
proof -
  let ?rs = "map (chapter_entry chapters fetch) [0..<length chapters]"
  from assms(1) have t: "0 < threads" by simp
  have r: "download_chapters threads chapters fetch order = Inr ?rs"
    by (rule download_chapters_positional [OF t assms(2,3)])
  have k: "content (?rs ! k) =
             (case fetch (item_id (chapters ! k)) of
                Raised msg \<Rightarrow> placeholder_error k msg | Returned c \<Rightarrow> placeholder k)"
    using assms(4,5) by (auto simp: chapter_entry_content split: fetched.splits)
  have o: "fetched_text (fetch (item_id (chapters ! i))) = Some (content (?rs ! i))"
    if "i < length chapters" "i \<noteq> k" for i
  proof -
    from that assms(6) obtain s where s: "fetched_text (fetch (item_id (chapters ! i))) = Some s"
      by blast
    then show ?thesis
      using that(1) by (auto simp: chapter_entry_content split: fetched.splits)
  qed
  from r k o show ?thesis by (intro exI [of _ ?rs]) simp
qed

theorem titles_distinct_failure_isolated_witness:
  "(1::int) \<le> 2 \<and> completion_order (length [ch ''A'' ''1'', ch ''B'' ''2'']) [1, 0]
   \<and> distinct (map chapter_ref.title [ch ''A'' ''1'', ch ''B'' ''2''])
   \<and> (\<exists>rs. download_chapters 2 [ch ''A'' ''1'', ch ''B'' ''2'']
          (\<lambda>i. if i = asc ''2'' then Raised (asc ''timeout'') else Returned (Some i)) [1, 0] = Inr rs
        \<and> length rs = 2
        \<and> content (rs ! 1) = placeholder_error 1 (asc ''timeout'')
        \<and> content (rs ! 0) = asc ''1'')"
proof -
  let ?cs = "[ch ''A'' ''1'', ch ''B'' ''2'']"
  let ?f = "\<lambda>i. if i = asc ''2'' then Raised (asc ''timeout'') else Returned (Some i)"
  have h1: "(1::int) \<le> 2" by simp
  have h2: "completion_order (length ?cs) [1, 0]"
    by (simp add: completion_order_def upt_rec)
  have h3: "distinct (map chapter_ref.title ?cs)"
    by (simp add: ch_def asc_def)
  have h4: "1 < length ?cs" by simp
  have h5: "fetched_text (?f (item_id (?cs ! 1))) = None"
    by (simp add: ch_def asc_def)
  have h6: "\<forall>i < length ?cs. i \<noteq> 1 \<longrightarrow> fetched_text (?f (item_id (?cs ! i))) \<noteq> None"
  proof (intro allI impI)
    fix i assume "i < length ?cs" and "i \<noteq> 1"
    then have "i = 0" by simp
    then show "fetched_text (?f (item_id (?cs ! i))) \<noteq> None"
      by (simp add: ch_def asc_def)
  qed
  from titles_distinct_failure_isolated [OF h1 h2 h3 h4 h5 h6]
  obtain rs where rs: "download_chapters 2 ?cs ?f [1, 0] = Inr rs" "length rs = length ?cs"
    "content (rs ! 1) = (case ?f (item_id (?cs ! 1)) of
        Raised msg \<Rightarrow> placeholder_error 1 msg | Returned c \<Rightarrow> placeholder 1)"
    "\<forall>i < length ?cs. i \<noteq> 1 \<longrightarrow> fetched_text (?f (item_id (?cs ! i))) = Some (content (rs ! i))"
    by blast
  from rs(3) have k: "content (rs ! 1) = placeholder_error 1 (asc ''timeout'')"
    by (simp add: ch_def asc_def)
  have "fetched_text (?f (item_id (?cs ! 0))) = Some (content (rs ! 0))"
    by (rule rs(4) [rule_format, of 0]) simp_all
  then have o: "content (rs ! 0) = asc ''1''"
    by (simp add: ch_def asc_def)
  from rs(1,2) k o h1 h2 h3 show ?thesis by auto
qed

text \<open>
  When no two chapters share a title, two runs over the same chapters and the same
  fetcher return the same sequence, whatever their numbers of workers (at least 1) and
  their completion orders.
\<close>

theorem titles_distinct_deterministic:
  assumes "1 \<le> threads" and "1 \<le> threads'"
    and "completion_order (length chapters) order" and "completion_order (length chapters) order'"
    and "distinct (map chapter_ref.title chapters)"
  shows "download_chapters threads chapters fetch order = download_chapters threads' chapters fetch order'"
proof -
  from assms(1,2) have t: "0 < threads" "0 < threads'" by simp_all
  show ?thesis
    by (simp add: download_chapters_positional [OF t(1) assms(3,5)]
        download_chapters_positional [OF t(2) assms(4,5)])
qed

theorem titles_distinct_deterministic_witness:
  "(1::int) \<le> 2 \<and> (1::int) \<le> 4
   \<and> completion_order (length [ch ''A'' ''1'', ch ''B'' ''2'']) [1, 0]
   \<and> completion_order (length [ch ''A'' ''1'', ch ''B'' ''2'']) [0, 1]
   \<and> distinct (map chapter_ref.title [ch ''A'' ''1'', ch ''B'' ''2''])
   \<and> download_chapters 2 [ch ''A'' ''1'', ch ''B'' ''2''] (\<lambda>i. Returned (Some i)) [1, 0]
       = download_chapters 4 [ch ''A'' ''1'', ch ''B'' ''2''] (\<lambda>i. Returned (Some i)) [0, 1]"
proof -
  have h1: "(1::int) \<le> 2" and h2: "(1::int) \<le> 4" by simp_all
  have h3: "completion_order (length [ch ''A'' ''1'', ch ''B'' ''2'']) [1, 0]"
    by (simp add: completion_order_def upt_rec)
  have h4: "completion_order (length [ch ''A'' ''1'', ch ''B'' ''2'']) [0, 1]"
    by (simp add: completion_order_def upt_rec)
  have h5: "distinct (map chapter_ref.title [ch ''A'' ''1'', ch ''B'' ''2''])"
    by (simp add: ch_def asc_def)
  from titles_distinct_deterministic [OF h1 h2 h3 h4 h5] h1 h2 h3 h4 h5 show ?thesis by blast
qed

subsection \<open>No entry is empty\<close>

text \<open>
  Claim C10. For every number of workers of at least 1 and every completion order, every
  entry the orchestrator returns has a content that is not empty: where the fetcher
  returned \<open>None\<close> or an empty string the placeholder stands, which is not empty.
  So the chapter loop of \<open>build_epub\<close> skips nothing: it emits one item per entry, as
  many as there are chapters.
\<close>

theorem every_chapter_emitted:
  assumes "1 \<le> threads" and "completion_order (length chapters) order"
  shows "\<exists>rs. download_chapters threads chapters fetch order = Inr rs
           \<and> list_all (\<lambda>r. content r \<noteq> []) rs
           \<and> epub_chapters 0 rs = map (\<lambda>(i, chap). epub_chapter i chap) (enumerate 0 rs)
           \<and> length (epub_chapters 0 rs) = length chapters
           \<and> (\<forall>i < length chapters.
                 fetch (item_id (chapters ! i)) = Returned None
                 \<or> fetch (item_id (chapters ! i)) = Returned (Some []) \<longrightarrow>
                 content (chapter_entry chapters fetch i) = placeholder i \<and> placeholder i \<noteq> [])"
proof -
  from assms(1) have t: "0 < threads" by simp
  from download_chapters_mset [OF t assms(2)]
  obtain rs where rs: "download_chapters threads chapters fetch order = Inr rs"
    "length rs = length chapters"
    "mset rs = mset (map (chapter_entry chapters fetch) [0..<length chapters])"
    by blast
  from rs(3) have "set rs = set (map (chapter_entry chapters fetch) [0..<length chapters])"
    by (rule mset_eq_setD)
  then have ne: "list_all (\<lambda>r. content r \<noteq> []) rs"
    by (auto simp: list_all_iff chapter_entry_nonempty)
  have e: "epub_chapters 0 rs = map (\<lambda>(i, chap). epub_chapter i chap) (enumerate 0 rs)"
    by (rule epub_chapters_nonempty [OF ne])
  then have len: "length (epub_chapters 0 rs) = length chapters"
    using rs(2) by simp
  have sub: "\<forall>i < length chapters.
                 fetch (item_id (chapters ! i)) = Returned None
                 \<or> fetch (item_id (chapters ! i)) = Returned (Some []) \<longrightarrow>
                 content (chapter_entry chapters fetch i) = placeholder i \<and> placeholder i \<noteq> []"
    by (auto simp: chapter_entry_def placeholder_nonempty)
  show ?thesis
  proof (intro exI conjI)
    show "download_chapters threads chapters fetch order = Inr rs" by (rule rs(1))
    show "list_all (\<lambda>r. content r \<noteq> []) rs" by (rule ne)
    show "epub_chapters 0 rs = map (\<lambda>(i, chap). epub_chapter i chap) (enumerate 0 rs)" by (rule e)
    show "length (epub_chapters 0 rs) = length chapters" by (rule len)
    show "\<forall>i < length chapters.
                 fetch (item_id (chapters ! i)) = Returned None
                 \<or> fetch (item_id (chapters ! i)) = Returned (Some []) \<longrightarrow>
                 content (chapter_entry chapters fetch i) = placeholder i \<and> placeholder i \<noteq> []"
      by (rule sub)
  qed
qed

theorem every_chapter_emitted_witness:
  "(1::int) \<le> 1 \<and> completion_order (length [ch ''A'' ''1'', ch ''B'' ''2'', ch ''C'' ''3'']) [2, 0, 1]
   \<and> (\<exists>rs. download_chapters 1 [ch ''A'' ''1'', ch ''B'' ''2'', ch ''C'' ''3'']
          (\<lambda>i. if i = asc ''1'' then Returned None
                else if i = asc ''2'' then Returned (Some []) else Returned (Some i)) [2, 0, 1] = Inr rs
        \<and> list_all (\<lambda>r. content r \<noteq> []) rs
        \<and> length (epub_chapters 0 rs) = length [ch ''A'' ''1'', ch ''B'' ''2'', ch ''C'' ''3''])"
proof -
  have h1: "(1::int) \<le> 1" by simp
  have h2: "completion_order (length [ch ''A'' ''1'', ch ''B'' ''2'', ch ''C'' ''3'']) [2, 0, 1]"
    by (simp add: completion_order_def upt_rec)
  from every_chapter_emitted [OF h1 h2] h1 h2 show ?thesis by blast
qed

section \<open>Properties of the run\<close>

lemma py_in_sublist: "py_in sub s = sublist sub s"
  by (induction s) (auto simp: sublist_Cons_right)

lemma book_info_failed:
  assumes "metadata_fetch_failed got \<or> metadata_code_rejected got"
  shows "book_info rt book_id got = Inr None \<or> (\<exists>e. book_info rt book_id got = Inl e)"
proof (cases got)
  case (Inl e)
  then show ?thesis by (simp add: book_info_def)
next
  case (Inr resp)
  obtain st body where resp: "resp = Response st body" by (cases resp)
  show ?thesis
  proof (cases "400 \<le> st \<and> st < 600")
    case True
    with Inr resp show ?thesis by (simp add: book_info_def)
  next
    case status: False
    show ?thesis
    proof (cases body)
      case (Inl e)
      with Inr resp status show ?thesis by (simp add: book_info_def)
    next
      case body: (Inr data)
      with Inr resp status assms have rej: "metadata_code_rejected got"
        by (auto simp: metadata_fetch_failed_def)
      with Inr resp body obtain kv where kv: "data = JObj kv"
        by (cases data) (simp_all add: metadata_code_rejected_def)
      with rej Inr resp body
      have "\<not> py_eq_zero (case map_of kv (asc ''code'') of Some c \<Rightarrow> c | None \<Rightarrow> JNull)"
        by (simp add: metadata_code_rejected_def)
      with Inr resp status body kv show ?thesis by (simp add: book_info_def)
    qed
  qed
qed

lemma wrap_sublist: "sublist t (pre @ wrap cfg t color @ post)"
proof (cases "show_colors cfg")
  case True
  have "pre @ (color @ t @ RESET) @ post = (pre @ color) @ t @ (RESET @ post)" by simp
  then have "sublist t (pre @ (color @ t @ RESET) @ post)"
    by (metis sublist_appendI)
  with True show ?thesis by (simp add: wrap_def)
next
  case False
  then show ?thesis by (simp add: wrap_def)
qed

subsection \<open>A failed metadata request ends the run\<close>

text \<open>
  Claim C7. When the book is not in the cache and the metadata fetch fails or the
  response's \<open>code\<close> is not \<open>0\<close>, \<open>download_novel\<close> prints its heading, sends the one
  metadata request, prints a diagnostic line that contains the text of the failure message,
  and leaves with the exit status 1. Nothing else happens: no request for the chapter list
  and no request for a chapter is sent.
\<close>

theorem metadata_failure_exits:
  assumes "cache book_id = None"
    and "metadata_fetch_failed (info_get net book_id) \<or> metadata_code_rejected (info_get net book_id)"
  shows "\<exists>heading diag.
           download_novel rt cfg net cache book_id
             = ([Printed heading, InfoRequest book_id, Printed diag], Exit 1)
           \<and> sublist info_failed diag"
proof -
  from book_info_failed [OF assms(2)]
  consider "book_info rt book_id (info_get net book_id) = Inr None"
    | e where "book_info rt book_id (info_get net book_id) = Inl e"
    by blast
  then show ?thesis
  proof cases
    case 1
    have "sublist info_failed (asc ''API'' @ info_failed)" by simp
    moreover have "sublist (asc ''API'' @ info_failed) (wrap cfg (asc ''API'' @ info_failed) RED)"
      using wrap_sublist [of "asc ''API'' @ info_failed" "[]" cfg RED "[]"] by simp
    ultimately have "sublist info_failed (wrap cfg (asc ''API'' @ info_failed) RED)"
      by (rule sublist_order.order_trans)
    with 1 assms(1) show ?thesis
      by (simp add: download_novel_def bind_io_def emit_def get_book_metadata_def)
  next
    case 2
    have "sublist info_failed (wrap cfg info_failed RED @ asc '': '' @ err_str rt e)"
      using wrap_sublist [of info_failed "[]" cfg RED "asc '': '' @ err_str rt e"] by simp
    with 2 assms(1) show ?thesis
      by (simp add: download_novel_def bind_io_def emit_def get_book_metadata_def)
  qed
qed

theorem metadata_failure_exits_witness:
  "Map.empty (asc ''1234567890'') = (None :: metadata option)
   \<and> metadata_code_rejected (info_get rejecting_network (asc ''1234567890''))
   \<and> (\<exists>heading diag.
         download_novel ascii_runtime DEFAULT_CONFIG rejecting_network Map.empty (asc ''1234567890'')
           = ([Printed heading, InfoRequest (asc ''1234567890''), Printed diag], Exit 1)
         \<and> sublist info_failed diag)"
proof -
  have h1: "Map.empty (asc ''1234567890'') = (None :: metadata option)" by simp
  have h2: "metadata_code_rejected (info_get rejecting_network (asc ''1234567890''))"
    by (simp add: metadata_code_rejected_def rejecting_network_def)
  then have h2': "metadata_fetch_failed (info_get rejecting_network (asc ''1234567890''))
      \<or> metadata_code_rejected (info_get rejecting_network (asc ''1234567890''))" by simp
  from metadata_failure_exits [OF h1 h2'] h1 h2 show ?thesis by blast
qed

lemma apply_arg_threads:
  "apply_arg rt cfg0 (asc ''--threads='' @ s) =
     (case py_int rt (takeWhile (\<lambda>c. c \<noteq> 0x3D) s) of
        Inl e \<Rightarrow> cfg0
      | Inr n \<Rightarrow> cfg0\<lparr>default_threads := n\<rparr>)"
  by (simp add: apply_arg_def asc_def)

lemma download_novel_nonpositive:
  assumes "default_threads cfg \<le> 0" and "cache book_id = None"
    and "book_info rt book_id (info_get net book_id) = Inr (Some m)"
    and "directory net book_id = Inr chapters" and "chapters \<noteq> []"
  shows "snd (download_novel rt cfg net cache book_id) = Uncaught ValueError
         \<and> filter is_request (fst (download_novel rt cfg net cache book_id))
             = [InfoRequest book_id, DirectoryRequest book_id]"
  using assms
  by (simp add: download_novel_def bind_io_def emit_def get_book_metadata_def
      get_chapter_list_def run_pool_def ThreadPoolExecutor_def)

subsection \<open>A number of workers that is not positive\<close>

text \<open>
  Claim C4 says that a number of workers of 0 or less is coerced to at least 1 and all
  tasks are still scheduled. The code hands \<open>config["default_threads"]\<close> to
  \<open>ThreadPoolExecutor\<close> as it is. Run with the arguments \<open>1234567890\<close> and
  \<open>--threads=0\<close> against a network that serves a book of two chapters, \<open>main\<close> sends the
  metadata and the chapter-list requests and then dies of the pool's \<open>ValueError\<close>: no
  chapter request is sent.
\<close>

theorem threads_zero_crashes:
  "filter is_request (fst (main ascii_runtime DEFAULT_CONFIG dune_network
       [asc ''run.py'', asc ''1234567890'', asc ''--threads=0'']))
     = [InfoRequest (asc ''1234567890''), DirectoryRequest (asc ''1234567890'')]
   \<and> snd (main ascii_runtime DEFAULT_CONFIG dune_network
       [asc ''run.py'', asc ''1234567890'', asc ''--threads=0'']) = Uncaught ValueError"
  by (simp add: run_defs eval_defs py_strip_def py_isspace_def)

text \<open>
  Claim C4, amended. A number of workers of 0 or less is not coerced. The orchestrator
  hands it to \<open>ThreadPoolExecutor\<close> as it is and ends with the constructor's
  \<open>ValueError\<close>, with no chapter task scheduled; a run of \<open>download_novel\<close> that has
  read the metadata (the book not being cached) and a chapter list that is not empty sends
  no chapter request and dies of that exception. An argument \<open>--threads=...\<close> stores
  \<open>int(v)\<close> as it is, whatever its value, for the text \<open>v\<close> between the first and the
  second \<open>=\<close>; when \<open>int(v)\<close> raises, the argument is ignored and the configuration
  stays as it was.
\<close>

theorem nonpositive_threads_rejected:
  assumes "threads \<le> 0"
  shows "download_chapters threads chapters fetch order = Inl ValueError
         \<and> (default_threads cfg = threads \<longrightarrow> run_pool rt cfg net chapters = ([], Uncaught ValueError))
         \<and> (default_threads cfg = threads \<and> cache book_id = None
              \<and> book_info rt book_id (info_get net book_id) = Inr (Some m)
              \<and> directory net book_id = Inr chapters \<and> chapters \<noteq> [] \<longrightarrow>
              snd (download_novel rt cfg net cache book_id) = Uncaught ValueError
              \<and> filter is_request (fst (download_novel rt cfg net cache book_id))
                  = [InfoRequest book_id, DirectoryRequest book_id])
         \<and> (\<forall>n. py_int rt (takeWhile (\<lambda>c. c \<noteq> 0x3D) s) = Inr n \<longrightarrow>
              apply_arg rt cfg0 (asc ''--threads='' @ s) = cfg0\<lparr>default_threads := n\<rparr>)
         \<and> (\<forall>e. py_int rt (takeWhile (\<lambda>c. c \<noteq> 0x3D) s) = Inl e \<longrightarrow>
              apply_arg rt cfg0 (asc ''--threads='' @ s) = cfg0)
         \<and> (py_int rt s = Inr threads \<and> 0x3D \<notin> set s \<longrightarrow>
              default_threads (apply_arg rt cfg0 (asc ''--threads='' @ s)) = threads)"
proof -
  have a: "download_chapters threads chapters fetch order = Inl ValueError"
    using assms by (simp add: download_chapters_def ThreadPoolExecutor_def)
  have b: "run_pool rt cfg net chapters = ([], Uncaught ValueError)" if "default_threads cfg = threads"
    using assms that by (simp add: run_pool_def ThreadPoolExecutor_def)
  have c: "snd (download_novel rt cfg net cache book_id) = Uncaught ValueError
           \<and> filter is_request (fst (download_novel rt cfg net cache book_id))
               = [InfoRequest book_id, DirectoryRequest book_id]"
    if "default_threads cfg = threads \<and> cache book_id = None
        \<and> book_info rt book_id (info_get net book_id) = Inr (Some m)
        \<and> directory net book_id = Inr chapters \<and> chapters \<noteq> []"
  proof -
    from that assms have 1: "default_threads cfg \<le> 0" and 2: "cache book_id = None"
      and 3: "book_info rt book_id (info_get net book_id) = Inr (Some m)"
      and 4: "directory net book_id = Inr chapters" and 5: "chapters \<noteq> []"
      by simp_all
    show ?thesis
      by (rule download_novel_nonpositive
            [where cfg = cfg and cache = cache and book_id = book_id and rt = rt and net = net
               and m = m and chapters = chapters, OF 1 2 3 4 5])
  qed
  have d: "apply_arg rt cfg0 (asc ''--threads='' @ s) = cfg0\<lparr>default_threads := n\<rparr>"
    if "py_int rt (takeWhile (\<lambda>c. c \<noteq> 0x3D) s) = Inr n" for n
    using that by (simp add: apply_arg_threads)
  have e: "apply_arg rt cfg0 (asc ''--threads='' @ s) = cfg0"
    if "py_int rt (takeWhile (\<lambda>c. c \<noteq> 0x3D) s) = Inl e" for e
    using that by (simp add: apply_arg_threads)
  have f: "default_threads (apply_arg rt cfg0 (asc ''--threads='' @ s)) = threads"
    if "py_int rt s = Inr threads \<and> 0x3D \<notin> set s"
  proof -
    from that have tw: "takeWhile (\<lambda>c. c \<noteq> 0x3D) s = s"
      by (auto simp: takeWhile_eq_all_conv)
    from that have "py_int rt s = Inr threads" by simp
    then have "py_int rt (takeWhile (\<lambda>c. c \<noteq> 0x3D) s) = Inr threads"
      by (simp only: tw)
    from d [OF this] show ?thesis by simp
  qed
  from a b c d e f show ?thesis by blast
qed

theorem nonpositive_threads_rejected_witness:
  "(0::int) \<le> 0
   \<and> download_chapters 0 [ch ''One'' ''1'', ch ''Two'' ''2''] (\<lambda>i. Returned (Some i)) [0, 1]
       = Inl ValueError
   \<and> apply_arg ascii_runtime DEFAULT_CONFIG (asc ''--threads='' @ asc ''0'')
       = DEFAULT_CONFIG\<lparr>default_threads := 0\<rparr>
   \<and> apply_arg ascii_runtime DEFAULT_CONFIG (asc ''--threads='' @ asc ''2'')
       = DEFAULT_CONFIG\<lparr>default_threads := 2\<rparr>
   \<and> apply_arg ascii_runtime DEFAULT_CONFIG (asc ''--threads='' @ asc ''many'') = DEFAULT_CONFIG
   \<and> run_pool ascii_runtime (DEFAULT_CONFIG\<lparr>default_threads := 0\<rparr>) dune_network
         [ch ''One'' ''1'', ch ''Two'' ''2''] = ([], Uncaught ValueError)
   \<and> snd (download_novel ascii_runtime (DEFAULT_CONFIG\<lparr>default_threads := 0\<rparr>) dune_network
         Map.empty (asc ''1234567890'')) = Uncaught ValueError
   \<and> filter is_request (fst (download_novel ascii_runtime (DEFAULT_CONFIG\<lparr>default_threads := 0\<rparr>)
         dune_network Map.empty (asc ''1234567890'')))
       = [InfoRequest (asc ''1234567890''), DirectoryRequest (asc ''1234567890'')]"
proof -
  let ?cfg = "DEFAULT_CONFIG\<lparr>default_threads := 0\<rparr>"
  let ?cs = "[ch ''One'' ''1'', ch ''Two'' ''2'']"
  let ?id = "asc ''1234567890''"
  have h: "(0::int) \<le> 0" by simp
  have p0: "py_int ascii_runtime (takeWhile (\<lambda>c. c \<noteq> 0x3D) (asc ''0'')) = Inr 0"
    by (simp add: ascii_runtime_def asc_def)
  have p2: "py_int ascii_runtime (takeWhile (\<lambda>c. c \<noteq> 0x3D) (asc ''2'')) = Inr 2"
    by (simp add: ascii_runtime_def asc_def)
  have pm: "py_int ascii_runtime (takeWhile (\<lambda>c. c \<noteq> 0x3D) (asc ''many'')) = Inl ValueError"
    by (simp add: ascii_runtime_def asc_def)
  have g1: "default_threads ?cfg = 0" by simp
  have g2: "Map.empty ?id = (None :: metadata option)" by simp
  have g3: "book_info ascii_runtime ?id (info_get dune_network ?id) = Inr (Some herbert_metadata)"
    by (simp add: book_info_def dune_network_def ok_body_def read_book_data_def default_metadata_def
        herbert_metadata_def asc_def)
  have g4: "directory dune_network ?id = Inr ?cs" by (simp add: dune_network_def)
  have g5: "?cs \<noteq> []" by simp
  note t0 = nonpositive_threads_rejected [OF h, where chapters = ?cs
      and fetch = "\<lambda>i. Returned (Some i)" and order = "[0, 1]" and cfg = ?cfg
      and rt = ascii_runtime and net = dune_network and cache = Map.empty and book_id = ?id
      and m = herbert_metadata and s = "asc ''0''" and ?cfg0.0 = DEFAULT_CONFIG]
  note t2 = nonpositive_threads_rejected [OF h, where chapters = ?cs
      and fetch = "\<lambda>i. Returned (Some i)" and order = "[0, 1]" and cfg = ?cfg
      and rt = ascii_runtime and net = dune_network and cache = Map.empty and book_id = ?id
      and m = herbert_metadata and s = "asc ''2''" and ?cfg0.0 = DEFAULT_CONFIG]
  note tm = nonpositive_threads_rejected [OF h, where chapters = ?cs
      and fetch = "\<lambda>i. Returned (Some i)" and order = "[0, 1]" and cfg = ?cfg
      and rt = ascii_runtime and net = dune_network and cache = Map.empty and book_id = ?id
      and m = herbert_metadata and s = "asc ''many''" and ?cfg0.0 = DEFAULT_CONFIG]
  from t0 have a: "download_chapters 0 ?cs (\<lambda>i. Returned (Some i)) [0, 1] = Inl ValueError"
    by blast
  from t0 g1 have b: "run_pool ascii_runtime ?cfg dune_network ?cs = ([], Uncaught ValueError)"
    by blast
  from t0 g1 g2 g3 g4 g5
  have c: "snd (download_novel ascii_runtime ?cfg dune_network Map.empty ?id) = Uncaught ValueError
           \<and> filter is_request (fst (download_novel ascii_runtime ?cfg dune_network Map.empty ?id))
               = [InfoRequest ?id, DirectoryRequest ?id]"
    by blast
  from t0 p0 have d0: "apply_arg ascii_runtime DEFAULT_CONFIG (asc ''--threads='' @ asc ''0'')
       = DEFAULT_CONFIG\<lparr>default_threads := 0\<rparr>" by blast
  from t2 p2 have d2: "apply_arg ascii_runtime DEFAULT_CONFIG (asc ''--threads='' @ asc ''2'')
       = DEFAULT_CONFIG\<lparr>default_threads := 2\<rparr>" by blast
  from tm pm have dm: "apply_arg ascii_runtime DEFAULT_CONFIG (asc ''--threads='' @ asc ''many'')
       = DEFAULT_CONFIG" by blast
  from h a b c d0 d2 dm show ?thesis by simp
qed

section \<open>Properties of the chapter fetcher\<close>

lemma try_not_object:
  assumes "\<forall>kv. data \<noteq> JObj kv"
  shows "download_chapter_try rt (Inr (Response st (Inr data))) = Inl AttributeError"
  using assms by (cases data) (simp_all add: download_chapter_try_def)

lemma try_code_rejected:
  assumes "\<not> py_eq_zero (response_code (JObj kv))"
  shows "download_chapter_try rt (Inr (Response st (Inr (JObj kv)))) = Inr None"
  using assms by (simp add: download_chapter_try_def response_code_def)

lemma try_data_missing:
  assumes "py_eq_zero (response_code (JObj kv))" and "map_of kv (asc ''data'') = None"
  shows "download_chapter_try rt (Inr (Response st (Inr (JObj kv)))) = Inr None"
  using assms by (simp add: download_chapter_try_def response_code_def)

lemma try_data_not_object:
  assumes "py_eq_zero (response_code (JObj kv))" and "map_of kv (asc ''data'') = Some v"
    and "\<forall>d. v \<noteq> JObj d"
  shows "download_chapter_try rt (Inr (Response st (Inr (JObj kv)))) = Inr None
         \<or> download_chapter_try rt (Inr (Response st (Inr (JObj kv)))) = Inl TypeError"
  using assms
  by (cases v) (simp_all add: download_chapter_try_def response_code_def split: bool.splits)

lemma try_data_object:
  assumes "py_eq_zero (response_code (JObj kv))" and "map_of kv (asc ''data'') = Some (JObj d)"
  shows "download_chapter_try rt (Inr (Response st (Inr (JObj kv)))) =
           (case map_of d (asc ''content'') of
              None \<Rightarrow> Inr None
            | Some (JStr raw) \<Rightarrow> Inr (Some (clean_content rt raw))
            | Some _ \<Rightarrow> Inl AttributeError)"
proof (cases "map_of d (asc ''content'')")
  case None
  with assms show ?thesis by (simp add: download_chapter_try_def response_code_def)
next
  case (Some c)
  with assms show ?thesis
    by (cases c) (simp_all add: download_chapter_try_def response_code_def)
qed

lemma download_chapter_returns: "\<exists>v. download_chapter rt post iid = Inr v"
  by (cases "download_chapter_try rt (post iid)") (simp_all add: download_chapter_def)

lemma download_chapter_failed:
  assumes "fetch_failed (post iid)"
  shows "download_chapter rt post iid = Inr None"
proof (cases "post iid")
  case (Inl e)
  then show ?thesis by (simp add: download_chapter_def download_chapter_try_def)
next
  case (Inr resp)
  obtain st body where resp: "resp = Response st body" by (cases resp)
  show ?thesis
  proof (cases body)
    case (Inl e)
    with Inr resp show ?thesis by (simp add: download_chapter_def download_chapter_try_def)
  next
    case body: (Inr data)
    from assms Inr resp body
    have f: "\<not> py_eq_zero (response_code data) \<or> response_content data = None"
      by (simp add: fetch_failed_def)
    show ?thesis
    proof (cases "\<exists>kv. data = JObj kv")
      case False
      then have "download_chapter_try rt (Inr (Response st (Inr data))) = Inl AttributeError"
        by (intro try_not_object) simp
      with Inr resp body show ?thesis by (simp add: download_chapter_def)
    next
      case True
      then obtain kv where kv: "data = JObj kv" by blast
      show ?thesis
      proof (cases "py_eq_zero (response_code (JObj kv))")
        case False
        from try_code_rejected [OF this] Inr resp body kv show ?thesis
          by (simp add: download_chapter_def)
      next
        case code: True
        with f kv have none: "response_content (JObj kv) = None" by simp
        show ?thesis
        proof (cases "map_of kv (asc ''data'')")
          case None
          from try_data_missing [OF code None] Inr resp body kv show ?thesis
            by (simp add: download_chapter_def)
        next
          case (Some v)
          show ?thesis
          proof (cases "\<exists>d. v = JObj d")
            case False
            then have "\<forall>d. v \<noteq> JObj d" by simp
            from try_data_not_object [OF code Some this, of rt st] Inr resp body kv show ?thesis
              by (auto simp: download_chapter_def)
          next
            case True
            then obtain d where d: "v = JObj d" by blast
            with none Some have "map_of d (asc ''content'') = None"
              by (simp add: response_content_def)
            with try_data_object [OF code Some [unfolded d], of rt st] Inr resp body kv show ?thesis
              by (simp add: download_chapter_def)
          qed
        qed
      qed
    qed
  qed
qed

subsection \<open>Failures give no content\<close>

text \<open>
  Claim C5. For every chapter identifier and everything the request can do,
  \<open>download_chapter\<close> returns and does not raise; and when the fetch failed (the
  request raised on a timeout or a connection error, the body is not JSON, the status code
  is not \<open>0\<close>, or there is no content field) it returns \<open>None\<close>.
\<close>

theorem download_chapter_swallows_failures:
  "(\<exists>v. download_chapter rt post iid = Inr v)
   \<and> (fetch_failed (post iid) \<longrightarrow> download_chapter rt post iid = Inr None)"
  using download_chapter_returns download_chapter_failed by blast

theorem download_chapter_swallows_failures_witness:
  "fetch_failed (Inl (RequestError (asc ''timed out'')))
   \<and> download_chapter ascii_runtime (\<lambda>i. Inl (RequestError (asc ''timed out''))) (asc ''7'') = Inr None
   \<and> fetch_failed (Inr (Response 200 (Inl (JSONDecodeError (asc ''Expecting value'')))))
   \<and> download_chapter ascii_runtime
         (\<lambda>i. Inr (Response 200 (Inl (JSONDecodeError (asc ''Expecting value''))))) (asc ''7'') = Inr None
   \<and> fetch_failed (Inr (Response 200 (Inr (JObj [(asc ''code'', JInt 1)]))))
   \<and> download_chapter ascii_runtime
         (\<lambda>i. Inr (Response 200 (Inr (JObj [(asc ''code'', JInt 1)])))) (asc ''7'') = Inr None
   \<and> fetch_failed (ok_body (JObj [(asc ''title'', JStr (asc ''One''))]))
   \<and> download_chapter ascii_runtime
         (\<lambda>i. ok_body (JObj [(asc ''title'', JStr (asc ''One''))])) (asc ''7'') = Inr None"
proof -
  have f1: "fetch_failed (Inl (RequestError (asc ''timed out'')))"
    by (simp add: fetch_failed_def)
  have f2: "fetch_failed (Inr (Response 200 (Inl (JSONDecodeError (asc ''Expecting value'')))))"
    by (simp add: fetch_failed_def)
  have f3: "fetch_failed (Inr (Response 200 (Inr (JObj [(asc ''code'', JInt 1)]))))"
    by (simp add: fetch_failed_def response_code_def)
  have f4: "fetch_failed (ok_body (JObj [(asc ''title'', JStr (asc ''One''))]))"
    by (simp add: fetch_failed_def ok_body_def response_code_def response_content_def asc_def)
  from f1 f2 f3 f4
    download_chapter_swallows_failures
      [of ascii_runtime "\<lambda>i. Inl (RequestError (asc ''timed out''))" "asc ''7''"]
    download_chapter_swallows_failures
      [of ascii_runtime "\<lambda>i. Inr (Response 200 (Inl (JSONDecodeError (asc ''Expecting value''))))" "asc ''7''"]
    download_chapter_swallows_failures
      [of ascii_runtime "\<lambda>i. Inr (Response 200 (Inr (JObj [(asc ''code'', JInt 1)])))" "asc ''7''"]
    download_chapter_swallows_failures
      [of ascii_runtime "\<lambda>i. ok_body (JObj [(asc ''title'', JStr (asc ''One''))])" "asc ''7''"]
  show ?thesis by simp
qed

subsection \<open>A successful response is cleaned\<close>

lemma download_chapter_success:
  assumes "post iid = Inr (Response st (Inr data))"
    and "py_eq_zero (response_code data)"
    and "response_content data = Some (JStr raw)"
  shows "download_chapter rt post iid = Inr (Some (clean_content rt raw))"
proof -
  from assms(3) obtain kv d where kv: "data = JObj kv" "map_of kv (asc ''data'') = Some (JObj d)"
    "map_of d (asc ''content'') = Some (JStr raw)"
    by (auto simp: response_content_def split: json.splits option.splits)
  from assms(2) kv(1) have code: "py_eq_zero (response_code (JObj kv))" by simp
  from try_data_object [OF code kv(2), of rt st] kv(3) assms(1) kv(1) show ?thesis
    by (simp add: download_chapter_def)
qed

lemma strip_trimmed:
  "py_strip s = [] \<or> (\<not> py_isspace (hd (py_strip s)) \<and> \<not> py_isspace (last (py_strip s)))"
proof (cases "py_strip s = []")
  case True
  then show ?thesis by simp
next
  case False
  define t where "t = dropWhile py_isspace s"
  define u where "u = dropWhile py_isspace (rev t)"
  have s: "py_strip s = rev u" by (simp add: py_strip_def t_def u_def)
  with False have u: "u \<noteq> []" by simp
  have "\<not> py_isspace (hd u)" unfolding u_def using u [unfolded u_def] by (rule hd_dropWhile)
  then have l: "\<not> py_isspace (last (py_strip s))"
    using u by (simp add: s last_rev)
  have t: "t \<noteq> []"
  proof
    assume "t = []"
    then have "u = []" by (simp add: u_def)
    with u show False by simp
  qed
  have ht: "\<not> py_isspace (hd t)" unfolding t_def using t [unfolded t_def] by (rule hd_dropWhile)
  have "rev t = takeWhile py_isspace (rev t) @ u"
    by (simp add: u_def)
  then have "last (rev t) = last u"
    using u by (metis last_appendR)
  then have "last u = hd t" using t by (simp add: last_rev)
  then have "hd (py_strip s) = hd t"
    using u by (simp add: s hd_rev)
  with ht l show ?thesis by simp
qed

lemma not_sublist_butlast:
  assumes "old \<noteq> []"
  shows "\<not> sublist old (butlast old)"
proof
  assume "sublist old (butlast old)"
  then have "length old \<le> length (butlast old)" by (rule sublist_length_le)
  with assms show False by (cases old rule: rev_cases) simp_all
qed

lemma replaced_Cons:
  assumes "\<not> prefix old (c # s)" and "replaced old new s t" and "old \<noteq> []"
  shows "replaced old new (c # s) (c # t)"
  using assms(2)
proof cases
  case replaced_none
  with assms(1) have "\<not> sublist old (c # s)" by (simp add: sublist_Cons_right)
  with replaced_none show ?thesis by (simp add: replaced.replaced_none)
next
  case (replaced_first a b t')
  have "\<not> prefix old (c # a @ butlast old)"
  proof
    assume "prefix old (c # a @ butlast old)"
    moreover have "c # s = (c # a @ butlast old) @ (last old # b)"
    proof -
      have "old = butlast old @ [last old]" using assms(3) by simp
      then have "old @ b = butlast old @ last old # b"
        by (metis append.assoc append_Cons append_Nil)
      with replaced_first(1) show ?thesis by simp
    qed
    ultimately have "prefix old (c # s)" by (metis prefix_prefix)
    with assms(1) show False by simp
  qed
  with replaced_first(3) have "\<not> sublist old ((c # a) @ butlast old)"
    by (simp add: sublist_Cons_right)
  from replaced.replaced_first [OF this replaced_first(4)] replaced_first(1,2)
  show ?thesis by simp
qed

lemma replace_scan_replaced:
  "old \<noteq> [] \<Longrightarrow> replaced old new s (replace_scan old new s)"
proof (induction old new s rule: replace_scan.induct)
  case (1 old new)
  then have "\<not> sublist old []" by simp
  then show ?case by (simp add: replaced_none)
next
  case (2 old new c s)
  show ?case
  proof (cases "prefix old (c # s)")
    case True
    then obtain b where b: "c # s = old @ b" by (auto simp: prefix_def)
    with "2.prems" have "s = tl old @ b" by (cases old) simp_all
    then have d: "drop (length old - 1) s = b" by simp
    from "2.IH"(1) True "2.prems" d have "replaced old new b (replace_scan old new b)" by simp
    moreover have "\<not> sublist old ([] @ butlast old)"
      using not_sublist_butlast [OF "2.prems"] by simp
    ultimately have "replaced old new ([] @ old @ b) ([] @ new @ replace_scan old new b)"
      by (rule replaced_first [rotated])
    then have r: "replaced old new (old @ b) (new @ replace_scan old new b)" by simp
    have rs: "replace_scan old new (c # s) = new @ replace_scan old new b"
      using True "2.prems" d by simp
    from r b have "replaced old new (c # s) (new @ replace_scan old new b)" by simp
    then show ?thesis unfolding rs .
  next
    case False
    with "2.IH"(2) "2.prems" have "replaced old new s (replace_scan old new s)" by simp
    from replaced_Cons [OF False this "2.prems"] False show ?thesis by simp
  qed
qed

lemma py_replace_replaced:
  "old \<noteq> [] \<Longrightarrow> replaced old new s (py_replace old new s)"
  by (simp add: py_replace_def replace_scan_replaced)


lemma replace_scan_absent:
  "\<not> sublist old s \<Longrightarrow> replace_scan old new s = s"
  by (induction s) (simp_all add: sublist_Cons_right)

lemma prefix_within:
  assumes "prefix old (xs @ ys)" and "length old \<le> length xs"
  shows "prefix old xs"
  using assms by (metis prefix_length_prefix prefixI)

lemma replace_scan_leftmost:
  assumes "old \<noteq> []" and "\<not> sublist old (a @ butlast old)"
  shows "replace_scan old new (a @ old @ b) = a @ new @ replace_scan old new b"
  using assms(2)
proof (induction a)
  case Nil
  from assms(1) obtain c r where old: "old = c # r" by (cases old) auto
  then show ?case by simp
next
  case (Cons x a)
  from Cons.prems have n: "\<not> prefix old (x # a @ butlast old)" and t: "\<not> sublist old (a @ butlast old)"
    by (simp_all add: sublist_Cons_right)
  have "\<not> prefix old (x # a @ old @ b)"
  proof
    assume p: "prefix old (x # a @ old @ b)"
    have "old = butlast old @ [last old]" using assms(1) by simp
    then have "old @ b = butlast old @ last old # b"
      by (metis append.assoc append_Cons append_Nil)
    then have "x # a @ old @ b = (x # a @ butlast old) @ (last old # b)" by simp
    with p have "prefix old ((x # a @ butlast old) @ (last old # b))" by simp
    moreover have "length old \<le> length (x # a @ butlast old)" by simp
    ultimately have "prefix old (x # a @ butlast old)" by (rule prefix_within)
    with n show False by simp
  qed
  with Cons.IH [OF t] show ?case by simp
qed

lemma replaced_unique:
  assumes "replaced old new s t" and "old \<noteq> []"
  shows "t = replace_scan old new s"
  using assms
proof (induction rule: replaced.induct)
  case (replaced_none s)
  then show ?case by (simp add: replace_scan_absent)
next
  case (replaced_first a b t)
  then show ?case by (simp add: replace_scan_leftmost)
qed

lemma replaced_iff:
  assumes "old \<noteq> []"
  shows "replaced old new s t \<longleftrightarrow> t = py_replace old new s"
  using assms replaced_unique [of old new s t] py_replace_replaced [of old new s]
  by (auto simp: py_replace_def)

lemma p_idx_match_Some:
  assumes "p_idx_match nd s = Some n"
  shows "\<exists>t. p_idx_tag nd t \<and> prefix t s \<and> n = length t"
proof -
  define rr where "rr = drop 8 s"
  define ds where "ds = takeWhile nd rr"
  define rest where "rest = drop (length ds) rr"
  from assms have p: "prefix tag_open s" and d: "ds \<noteq> []"
    and c: "prefix tag_close rest" and n: "n = 8 + length ds + 2"
    by (auto simp: p_idx_match_def tag_open_def tag_close_def Let_def rr_def ds_def rest_def
        split: if_splits)
  have l8: "length tag_open = 8" by (simp add: tag_open_def asc_def)
  from p obtain r where r: "s = tag_open @ r" by (auto simp: prefix_def)
  with l8 have r': "rr = r" by (simp add: rr_def)
  from c obtain q where q: "rest = tag_close @ q" by (auto simp: prefix_def)
  have "rr = ds @ rest"
    unfolding ds_def rest_def by (metis append_take_drop_id takeWhile_eq_take)
  with q r r' have s: "s = tag_open @ ds @ tag_close @ q" by simp
  have a: "list_all nd ds"
    unfolding ds_def list_all_iff by (meson set_takeWhileD)
  let ?t = "tag_open @ ds @ tag_close"
  from d a have "p_idx_tag nd ?t" by (auto simp: p_idx_tag_def)
  moreover from s have "prefix ?t s" by (metis append.assoc prefixI)
  moreover have "n = length ?t" using n l8 by (simp add: tag_close_def asc_def)
  ultimately show ?thesis by blast
qed

lemma p_idx_match_tag:
  assumes "\<not> nd 0x22" and "p_idx_tag nd t" and "prefix t s"
  shows "p_idx_match nd s = Some (length t)"
proof -
  from assms(2) obtain ds where ds: "ds \<noteq> []" "list_all nd ds" "t = tag_open @ ds @ tag_close"
    by (auto simp: p_idx_tag_def)
  from assms(3) ds(3) obtain q where s: "s = tag_open @ ds @ tag_close @ q"
    by (auto simp: prefix_def)
  have l8: "length tag_open = 8" by (simp add: tag_open_def asc_def)
  from s l8 have r: "drop 8 s = ds @ tag_close @ q" by simp
  have tw: "takeWhile nd (ds @ tag_close @ q) = ds"
    using ds(2) assms(1) by (simp add: takeWhile_append2 list_all_iff tag_close_def)
  have p: "prefix (asc ''<p idx='' @ [0x22]) s"
    using s by (simp add: tag_open_def)
  show ?thesis
    using p ds(1) by (simp add: p_idx_match_def r tw Let_def ds(3) l8)
       (simp add: tag_close_def asc_def)
qed


lemma p_idx_tag_nonempty: "p_idx_tag nd t \<Longrightarrow> t \<noteq> []"
  by (auto simp: p_idx_tag_def tag_open_def asc_def)

lemma tags_removed_Cons:
  assumes "\<forall>t. p_idx_tag nd t \<longrightarrow> \<not> prefix t (c # s)" and "tags_removed nd s r"
  shows "tags_removed nd (c # s) (c # r)"
  using assms(2)
proof cases
  case tags_none
  with assms(1) have "\<forall>t. p_idx_tag nd t \<longrightarrow> \<not> sublist t (c # s)"
    by (auto simp: sublist_Cons_right)
  with tags_none show ?thesis by (simp add: tags_removed.tags_none)
next
  case (tags_first t a b r')
  have "\<forall>a1 a2 t'. c # a = a1 @ a2 \<and> a2 \<noteq> [] \<and> p_idx_tag nd t' \<longrightarrow> \<not> prefix t' (a2 @ t @ b)"
  proof (intro allI impI)
    fix a1 a2 t'
    assume h: "c # a = a1 @ a2 \<and> a2 \<noteq> [] \<and> p_idx_tag nd t'"
    show "\<not> prefix t' (a2 @ t @ b)"
    proof (cases a1)
      case Nil
      with h have "a2 @ t @ b = c # s" using tags_first(1) by simp
      with assms(1) h show ?thesis by simp
    next
      case (Cons x a1')
      with h have "a = a1' @ a2" by simp
      with tags_first(4) h show ?thesis by blast
    qed
  qed
  from tags_removed.tags_first [OF tags_first(3) this tags_first(5)] tags_first(1,2)
  show ?thesis by simp
qed

lemma strip_p_idx_removed:
  "\<not> nd 0x22 \<Longrightarrow> tags_removed nd s (strip_p_idx nd s)"
proof (induction nd s rule: strip_p_idx.induct)
  case (1 nd)
  have "\<forall>t. p_idx_tag nd t \<longrightarrow> \<not> sublist t []"
    by (auto dest: p_idx_tag_nonempty)
  then show ?case by (simp add: tags_none)
next
  case (2 nd c s)
  show ?case
  proof (cases "p_idx_match nd (c # s)")
    case None
    have "\<forall>t. p_idx_tag nd t \<longrightarrow> \<not> prefix t (c # s)"
    proof (intro allI impI notI)
      fix t assume "p_idx_tag nd t" and "prefix t (c # s)"
      with "2.prems" have "p_idx_match nd (c # s) = Some (length t)" by (rule p_idx_match_tag)
      with None show False by simp
    qed
    moreover from "2.IH"(1) None "2.prems" have "tags_removed nd s (strip_p_idx nd s)" by simp
    ultimately have "tags_removed nd (c # s) (c # strip_p_idx nd s)" by (rule tags_removed_Cons)
    with None show ?thesis by simp
  next
    case (Some n)
    from p_idx_match_Some [OF Some] obtain t
      where t: "p_idx_tag nd t" "prefix t (c # s)" "n = length t" by blast
    from t(2) obtain b where b: "c # s = t @ b" by (auto simp: prefix_def)
    from t(1) have "t \<noteq> []" by (rule p_idx_tag_nonempty)
    with b have "s = tl t @ b" by (cases t) simp_all
    with t(3) have d: "drop (n - 1) s = b" by simp
    from "2.IH"(2) [OF Some] "2.prems" d have ih: "tags_removed nd b (strip_p_idx nd b)" by simp
    have "\<forall>a1 a2 t'. [] = a1 @ a2 \<and> a2 \<noteq> [] \<and> p_idx_tag nd t' \<longrightarrow> \<not> prefix t' (a2 @ t @ b)"
      by simp
    from tags_first [OF t(1) this ih] have "tags_removed nd (t @ b) (strip_p_idx nd b)" by simp
    with b have "tags_removed nd (c # s) (strip_p_idx nd b)" by simp
    moreover have "strip_p_idx nd (c # s) = strip_p_idx nd b" using Some d by simp
    ultimately show ?thesis by simp
  qed
qed

lemma strip_trims:
  "trimmed s (py_strip s)"
proof -
  define t where "t = dropWhile py_isspace s"
  define l where "l = takeWhile py_isspace s"
  define r where "r = rev (takeWhile py_isspace (rev t))"
  have s: "py_strip s = rev (dropWhile py_isspace (rev t))" by (simp add: py_strip_def t_def)
  have "t = rev (dropWhile py_isspace (rev t)) @ rev (takeWhile py_isspace (rev t))"
    by (metis rev_append rev_rev_ident takeWhile_dropWhile_id)
  then have t: "t = py_strip s @ r" by (simp only: s r_def)
  have "s = l @ t" by (simp add: l_def t_def)
  with t have 1: "s = l @ py_strip s @ r" by simp
  have 2: "list_all py_isspace l"
    unfolding l_def list_all_iff by (meson set_takeWhileD)
  have 3: "list_all py_isspace r"
    unfolding r_def list_all_iff by (metis set_rev set_takeWhileD)
  from 1 2 3 strip_trimmed [of s] show ?thesis unfolding trimmed_def by blast
qed

text \<open>
  Claim C8. For every response that is well formed (a JSON object), carries the success
  code \<open>0\<close> and a content field holding a string, \<open>download_chapter\<close> returns that string
  with every \<open></p>\<close> replaced by a newline, then every \<open>&quot;\<close> by a double quote, then
  every \<open>&amp;\<close> by an ampersand, then the paragraph tags removed, then the whitespace
  at both ends removed. The result is given as the code computes it and, step by step, in
  the specification's terms (for the tags, given that the double quote is no decimal
  digit).
\<close>

theorem download_chapter_cleans:
  assumes "post iid = Inr (Response st (Inr data))"
    and "py_eq_zero (response_code data)"
    and "response_content data = Some (JStr raw)"
  shows "\<exists>s. download_chapter rt post iid = Inr (Some s)
           \<and> s = py_strip (strip_p_idx (is_decimal rt)
                   (py_replace (asc ''&amp;'') (asc ''&'')
                     (py_replace (asc ''&quot;'') [0x22]
                       (py_replace (asc ''</p>'') [0x0A] raw))))
           \<and> (\<not> is_decimal rt 0x22 \<longrightarrow>
                (\<exists>r1 r2 r3 r4.
                   replaced (asc ''</p>'') [0x0A] raw r1
                   \<and> replaced (asc ''&quot;'') [0x22] r1 r2
                   \<and> replaced (asc ''&amp;'') (asc ''&'') r2 r3
                   \<and> tags_removed (is_decimal rt) r3 r4
                   \<and> trimmed r4 s))"
proof -
  define r1 where "r1 = py_replace (asc ''</p>'') [0x0A] raw"
  define r2 where "r2 = py_replace (asc ''&quot;'') [0x22] r1"
  define r3 where "r3 = py_replace (asc ''&amp;'') (asc ''&'') r2"
  define r4 where "r4 = strip_p_idx (is_decimal rt) r3"
  have d: "download_chapter rt post iid = Inr (Some (py_strip r4))"
    using download_chapter_success [of post iid st data raw rt, OF assms]
    by (simp add: clean_content_def r1_def r2_def r3_def r4_def)
  have 1: "replaced (asc ''</p>'') [0x0A] raw r1"
    unfolding r1_def by (rule py_replace_replaced) (simp add: asc_def)
  have 2: "replaced (asc ''&quot;'') [0x22] r1 r2"
    unfolding r2_def by (rule py_replace_replaced) (simp add: asc_def)
  have 3: "replaced (asc ''&amp;'') (asc ''&'') r2 r3"
    unfolding r3_def by (rule py_replace_replaced) (simp add: asc_def)
  have 4: "tags_removed (is_decimal rt) r3 r4" if "\<not> is_decimal rt 0x22"
    unfolding r4_def using that by (rule strip_p_idx_removed)
  have 5: "trimmed r4 (py_strip r4)" by (rule strip_trims)
  have e: "py_strip r4 = py_strip (strip_p_idx (is_decimal rt)
                   (py_replace (asc ''&amp;'') (asc ''&'')
                     (py_replace (asc ''&quot;'') [0x22]
                       (py_replace (asc ''</p>'') [0x0A] raw))))"
    by (simp add: r1_def r2_def r3_def r4_def)
  from 1 2 3 4 5 have rel: "\<not> is_decimal rt 0x22 \<longrightarrow>
                (\<exists>q1 q2 q3 q4.
                   replaced (asc ''</p>'') [0x0A] raw q1
                   \<and> replaced (asc ''&quot;'') [0x22] q1 q2
                   \<and> replaced (asc ''&amp;'') (asc ''&'') q2 q3
                   \<and> tags_removed (is_decimal rt) q3 q4
                   \<and> trimmed q4 (py_strip r4))"
    by blast
  from d e rel show ?thesis by blast
qed

theorem download_chapter_cleans_witness:
  "chapter_network (asc ''7'') = Inr (Response 200 (Inr chapter_body))
   \<and> py_eq_zero (response_code chapter_body)
   \<and> response_content chapter_body = Some (JStr chapter_markup)
   \<and> \<not> is_decimal ascii_runtime 0x22
   \<and> download_chapter ascii_runtime chapter_network (asc ''7'')
       = Inr (Some (asc ''He said '' @ [0x22] @ asc ''hi'' @ [0x22] @ asc '' & left'' @ [0x0A] @ asc ''Bye''))
   \<and> (\<exists>r1 r2 r3 r4.
         replaced (asc ''</p>'') [0x0A] chapter_markup r1
         \<and> replaced (asc ''&quot;'') [0x22] r1 r2
         \<and> replaced (asc ''&amp;'') (asc ''&'') r2 r3
         \<and> tags_removed (is_decimal ascii_runtime) r3 r4
         \<and> trimmed r4 (asc ''He said '' @ [0x22] @ asc ''hi'' @ [0x22] @ asc '' & left'' @ [0x0A] @ asc ''Bye''))"
proof -
  have h1: "chapter_network (asc ''7'') = Inr (Response 200 (Inr chapter_body))"
    by (simp add: chapter_network_def)
  have h2: "py_eq_zero (response_code chapter_body)"
    by (simp add: chapter_body_def response_code_def)
  have h3: "response_content chapter_body = Some (JStr chapter_markup)"
    by (simp add: chapter_body_def response_content_def asc_def)
  have h4: "\<not> is_decimal ascii_runtime 0x22"
    by (simp add: ascii_runtime_def)
  have e: "py_strip (strip_p_idx (is_decimal ascii_runtime)
             (py_replace (asc ''&amp;'') (asc ''&'')
               (py_replace (asc ''&quot;'') [0x22]
                 (py_replace (asc ''</p>'') [0x0A] chapter_markup))))
           = asc ''He said '' @ [0x22] @ asc ''hi'' @ [0x22] @ asc '' & left'' @ [0x0A] @ asc ''Bye''"
    by (simp add: chapter_markup_def py_replace_def p_idx_match_def py_strip_def py_isspace_def
        ascii_runtime_def asc_def)
  from download_chapter_cleans [of chapter_network "asc ''7''" 200 chapter_body chapter_markup
      ascii_runtime, OF h1 h2 h3] h4
  obtain s where s: "download_chapter ascii_runtime chapter_network (asc ''7'') = Inr (Some s)"
    "s = py_strip (strip_p_idx (is_decimal ascii_runtime)
             (py_replace (asc ''&amp;'') (asc ''&'')
               (py_replace (asc ''&quot;'') [0x22]
                 (py_replace (asc ''</p>'') [0x0A] chapter_markup))))"
    "\<exists>r1 r2 r3 r4.
         replaced (asc ''</p>'') [0x0A] chapter_markup r1
         \<and> replaced (asc ''&quot;'') [0x22] r1 r2
         \<and> replaced (asc ''&amp;'') (asc ''&'') r2 r3
         \<and> tags_removed (is_decimal ascii_runtime) r3 r4
         \<and> trimmed r4 s"
    by blast
  from s(2) e have "s = asc ''He said '' @ [0x22] @ asc ''hi'' @ [0x22] @ asc '' & left'' @ [0x0A] @ asc ''Bye''"
    by (rule trans)
  with s(1,3) h1 h2 h3 h4 show ?thesis by blast
qed

section \<open>Properties of the output file's name\<close>

lemma strip_keeps_head:
  assumes "\<not> py_isspace x"
  shows "py_strip (x # xs) = x # rev (dropWhile py_isspace (rev xs))"
  using assms by (simp add: py_strip_def dropWhile_append)

lemma unknown_not_space: "\<not> py_isspace 0x672A" "\<not> py_isspace 0x77E5"
  by (simp_all add: py_isspace_def)

lemma sanitize_unknown_prefix:
  assumes "prefix unknown name"
  shows "prefix unknown (sanitize_filename name)"
proof -
  from assms obtain r where r: "name = 0x672A # 0x77E5 # r"
    by (auto simp: unknown_def prefix_def)
  have f: "filter (\<lambda>c. c \<notin> forbidden) name = 0x672A # 0x77E5 # filter (\<lambda>c. c \<notin> forbidden) r"
    by (simp add: r forbidden_def)
  have "py_strip (0x672A # 0x77E5 # filter (\<lambda>c. c \<notin> forbidden) r)
        = 0x672A # rev (dropWhile py_isspace (rev (0x77E5 # filter (\<lambda>c. c \<notin> forbidden) r)))"
    by (rule strip_keeps_head) (rule unknown_not_space)
  also have "rev (dropWhile py_isspace (rev (0x77E5 # filter (\<lambda>c. c \<notin> forbidden) r)))
        = 0x77E5 # rev (dropWhile py_isspace (rev (filter (\<lambda>c. c \<notin> forbidden) r)))"
    using unknown_not_space(2) by (simp add: dropWhile_append)
  finally show ?thesis
    by (simp add: sanitize_filename_def f unknown_def)
qed

lemma unknown_across_hyphen:
  "sublist unknown (x @ asc ''-'' @ y) \<longleftrightarrow> sublist unknown x \<or> sublist unknown y"
proof
  assume "sublist unknown (x @ asc ''-'' @ y)"
  then consider "sublist unknown x" | "sublist unknown (asc ''-'' @ y)"
    | u1 u2 where "unknown = u1 @ u2" "suffix u1 x" "prefix u2 (asc ''-'' @ y)"
    by (auto simp: sublist_append)
  then show "sublist unknown x \<or> sublist unknown y"
  proof cases
    case 1
    then show ?thesis by simp
  next
    case 2
    then show ?thesis
      by (simp add: asc_def unknown_def sublist_Cons_right)
  next
    case 3
    from 3(1) consider "u1 = [] \<and> u2 = unknown" | "u1 = [0x672A] \<and> u2 = [0x77E5]"
      | "u1 = unknown \<and> u2 = []"
      by (auto simp: unknown_def Cons_eq_append_conv)
    then show ?thesis
    proof cases
      case 1
      with 3(3) show ?thesis by (simp add: asc_def unknown_def)
    next
      case 2
      with 3(3) show ?thesis by (simp add: asc_def)
    next
      case 3
      with \<open>suffix u1 x\<close> have "sublist unknown x" by (simp add: suffix_imp_sublist)
      then show ?thesis by simp
    qed
  qed
next
  assume "sublist unknown x \<or> sublist unknown y"
  then show "sublist unknown (x @ asc ''-'' @ y)"
    by (auto simp: sublist_append)
qed

text \<open>
  Claim C9 says that the book identifier is in the file's name exactly when the metadata
  is entirely unknown. The code appends it when the name built from the title and the
  author contains U+672A U+77E5. For a response that carries the book name "Dune" and no
  author, the title is known, the author keeps its default, which starts with these two
  characters, and the identifier is appended.
\<close>

theorem name_suffix_with_known_title:
  "book_info ascii_runtime (asc ''1234567890'')
     (ok_body (JArr [JObj [(asc ''book_name'', JStr (asc ''Dune''))]])) = Inr (Some dune_metadata)
   \<and> \<not> entirely_unknown dune_metadata (asc ''1234567890'')
   \<and> output_name dune_metadata (asc ''1234567890'')
       = Inr (asc ''Dune-'' @ [0x672A, 0x77E5, 0x4F5C, 0x8005] @ asc ''_1234567890'')"
  by (simp add: book_info_def ok_body_def read_book_data_def default_metadata_def dune_metadata_def
      entirely_unknown_def output_name_def sanitize_filename_def py_strip_def py_isspace_def
      forbidden_def unknown_def asc_def)

text \<open>
  Claim C9, amended. When the book name and the author are strings, the file's name is the
  sanitized book name, a hyphen and the sanitized author, followed by an underscore and the
  book identifier exactly when that name contains U+672A U+77E5, that is, exactly when the
  sanitized book name or the sanitized author contains them (sanitizing removes the
  forbidden characters, strips the whitespace at both ends and keeps the first 100
  characters). This is so whenever the book name or the author starts with them, as the
  default book name and the default author do.
\<close>

theorem output_name_suffix:
  assumes "book_name md = JStr b" and "author md = JStr a"
  shows "\<exists>fname. output_name md book_id = Inr fname
           \<and> (sublist unknown (sanitize_filename b @ asc ''-'' @ sanitize_filename a) \<longrightarrow>
                fname = sanitize_filename b @ asc ''-'' @ sanitize_filename a @ asc ''_'' @ book_id)
           \<and> (\<not> sublist unknown (sanitize_filename b @ asc ''-'' @ sanitize_filename a) \<longrightarrow>
                fname = sanitize_filename b @ asc ''-'' @ sanitize_filename a)
           \<and> (prefix unknown b \<or> prefix unknown a \<longrightarrow>
                sublist unknown (sanitize_filename b @ asc ''-'' @ sanitize_filename a))
           \<and> (sublist unknown (sanitize_filename b @ asc ''-'' @ sanitize_filename a)
                \<longleftrightarrow> sublist unknown (sanitize_filename b) \<or> sublist unknown (sanitize_filename a))"
proof -
  let ?base = "sanitize_filename b @ asc ''-'' @ sanitize_filename a"
  have n: "output_name md book_id
           = Inr (if sublist unknown ?base then ?base @ asc ''_'' @ book_id else ?base)"
    using assms by (simp add: output_name_def py_in_sublist)
  have d: "sublist unknown ?base" if "prefix unknown b \<or> prefix unknown a"
    using that
  proof
    assume "prefix unknown b"
    then have "prefix unknown (sanitize_filename b)" by (rule sanitize_unknown_prefix)
    then have "prefix unknown ?base" by (rule prefix_prefix)
    then show ?thesis by (rule prefix_imp_sublist)
  next
    assume "prefix unknown a"
    then have "prefix unknown (sanitize_filename a)" by (rule sanitize_unknown_prefix)
    then have "sublist unknown (sanitize_filename a)" by (rule prefix_imp_sublist)
    then show ?thesis by (simp add: sublist_append)
  qed
  have e: "sublist unknown ?base
           \<longleftrightarrow> sublist unknown (sanitize_filename b) \<or> sublist unknown (sanitize_filename a)"
    by (rule unknown_across_hyphen)
  from n d e show ?thesis by auto
qed

theorem output_name_suffix_witness:
  "book_name dune_metadata = JStr (asc ''Dune'')
   \<and> author dune_metadata = JStr (unknown @ [0x4F5C, 0x8005])
   \<and> (\<exists>fname. output_name dune_metadata (asc ''1234567890'') = Inr fname
        \<and> fname = sanitize_filename (asc ''Dune'') @ asc ''-''
                   @ sanitize_filename (unknown @ [0x4F5C, 0x8005]) @ asc ''_'' @ asc ''1234567890'')"
proof -
  have h1: "book_name dune_metadata = JStr (asc ''Dune'')"
    by (simp add: dune_metadata_def)
  have h2: "author dune_metadata = JStr (unknown @ [0x4F5C, 0x8005])"
    by (simp add: dune_metadata_def default_metadata_def)
  have p: "prefix unknown (unknown @ [0x4F5C, 0x8005])" by simp
  from output_name_suffix [OF h1 h2, of "asc ''1234567890''"] p h1 h2 show ?thesis by blast
qed


end
